theory Spec2Isabelle
  imports Complex_Main "HOL-Library.Sublist"
begin

section \<open>Conventions\<close>

text \<open>
  JavaScript numbers are modelled by exact arithmetic: whole quantities (frame numbers,
  loop counters, whole seconds) are \<^typ>\<open>nat\<close> or \<^typ>\<open>int\<close>, every other number is a
  \<^typ>\<open>real\<close>. The rounding of IEEE-754 doubles is written out where a result depends on
  it: in the duration that \<open>generateMusic\<close> picks, every operation is rounded.

  \<open>Math.random()\<close> is modelled by a stream \<open>rnd :: nat \<Rightarrow> real\<close> of the successive
  results; a counter of the draws made so far is threaded through the code that draws.
\<close>

section \<open>Genre templates (src/musicGenerator.js)\<close>

record durationRange =
  min_seconds :: int
  max_seconds :: int

record genreTemplate =
  tempo :: real
  scale :: "string list"
  bassNotes :: "string list"
  chords :: "string list list"
  duration :: durationRange

definition electronic :: genreTemplate where
  "electronic = \<lparr> tempo = 128,
     scale = [''C4'', ''D4'', ''E4'', ''G4'', ''A4'', ''C5''],
     bassNotes = [''C2'', ''G2'', ''A2'', ''F2''],
     chords = [[''C4'', ''E4'', ''G4''], [''G3'', ''B3'', ''D4''],
               [''A3'', ''C4'', ''E4''], [''F3'', ''A3'', ''C4'']],
     duration = \<lparr> min_seconds = 180, max_seconds = 300 \<rparr> \<rparr>"

definition ambient :: genreTemplate where
  "ambient = \<lparr> tempo = 80,
     scale = [''C4'', ''D4'', ''F4'', ''G4'', ''A4'', ''C5'', ''D5''],
     bassNotes = [''C2'', ''F2'', ''G2''],
     chords = [[''C4'', ''E4'', ''G4'', ''B4''], [''F3'', ''A3'', ''C4'', ''E4''],
               [''G3'', ''B3'', ''D4'', ''F4'']],
     duration = \<lparr> min_seconds = 180, max_seconds = 300 \<rparr> \<rparr>"

definition hiphop :: genreTemplate where
  "hiphop = \<lparr> tempo = 90,
     scale = [''C4'', ''D4'', ''Eb4'', ''F4'', ''G4'', ''Ab4'', ''Bb4'', ''C5''],
     bassNotes = [''C2'', ''Eb2'', ''F2'', ''G2''],
     chords = [[''C4'', ''Eb4'', ''G4''], [''F3'', ''Ab3'', ''C4''],
               [''G3'', ''Bb3'', ''D4'']],
     duration = \<lparr> min_seconds = 180, max_seconds = 300 \<rparr> \<rparr>"

definition pop :: genreTemplate where
  "pop = \<lparr> tempo = 120,
     scale = [''C4'', ''D4'', ''E4'', ''F4'', ''G4'', ''A4'', ''B4'', ''C5''],
     bassNotes = [''C2'', ''F2'', ''G2'', ''A2''],
     chords = [[''C4'', ''E4'', ''G4''], [''F3'', ''A3'', ''C4''],
               [''G3'', ''B3'', ''D4''], [''A3'', ''C4'', ''E4'']],
     duration = \<lparr> min_seconds = 180, max_seconds = 300 \<rparr> \<rparr>"

definition techno :: genreTemplate where
  "techno = \<lparr> tempo = 140,
     scale = [''C4'', ''D4'', ''F4'', ''G4'', ''A4'', ''C5''],
     bassNotes = [''C2'', ''C2'', ''D2'', ''F2''],
     chords = [[''C4'', ''F4'', ''G4''], [''D4'', ''F4'', ''A4''],
               [''C4'', ''E4'', ''G4''], [''F3'', ''A3'', ''C4'']],
     duration = \<lparr> min_seconds = 180, max_seconds = 300 \<rparr> \<rparr>"

text \<open>The object literal \<open>this.genreTemplates\<close>, in the order of its keys.\<close>

definition genreTemplates :: "(string \<times> genreTemplate) list" where
  "genreTemplates =
     [(''electronic'', electronic), (''ambient'', ambient), (''hiphop'', hiphop),
      (''pop'', pop), (''techno'', techno)]"

section \<open>The scheduling part of the generated Tone.js script\<close>

datatype instrument = Kick | Hihat | Bass | Synth

text \<open>
  What is handed to \<open>triggerAttackRelease\<close> as the note: one pitch name, a chord, nothing
  (the hi-hat takes no note), or \<open>undefined\<close> when an array is read out of range.
\<close>

datatype pitch = Note string | Chord "string list" | Unpitched | Undefined

record event =
  ev_inst :: instrument
  ev_pitch :: pitch
  ev_len :: string
  ev_time :: real
  ev_velocity :: "real option"

text \<open>The transport while the script schedules: the events so far, and the draws made.\<close>

record transport =
  events :: "event list"
  draws :: nat

definition trigger :: "instrument \<Rightarrow> pitch \<Rightarrow> string \<Rightarrow> real \<Rightarrow> real option \<Rightarrow> transport \<Rightarrow> transport" where
  "trigger i p l t v s = s\<lparr> events := events s @ [\<lparr> ev_inst = i, ev_pitch = p, ev_len = l, ev_time = t, ev_velocity = v \<rparr>] \<rparr>"

text \<open>\<open>xs[i]\<close> on an array: \<open>undefined\<close> out of range.\<close>

definition element :: "'a list \<Rightarrow> nat \<Rightarrow> 'a option" where
  "element xs i = (if i < length xs then Some (xs ! i) else None)"

definition noteAt :: "string list \<Rightarrow> nat \<Rightarrow> pitch" where
  "noteAt xs i = (case element xs i of Some n \<Rightarrow> Note n | None \<Rightarrow> Undefined)"

definition chordAt :: "string list list \<Rightarrow> nat \<Rightarrow> pitch" where
  "chordAt xs i = (case element xs i of Some c \<Rightarrow> Chord c | None \<Rightarrow> Undefined)"

definition beatDuration :: "real \<Rightarrow> real" where
  "beatDuration bpm = 60 / bpm"

definition totalBeats :: "real \<Rightarrow> int \<Rightarrow> int" where
  "totalBeats bpm d = \<lfloor>real_of_int d / beatDuration bpm\<rfloor>"

text \<open>\<open>for (let i = 0; i < totalBeats; i++)\<close>: the kick drum, on the even beats.\<close>

function kickLoop :: "real \<Rightarrow> int \<Rightarrow> nat \<Rightarrow> transport \<Rightarrow> transport" where
  "kickLoop bd tb i s =
     (if int i < tb then
        (let time = real i * bd
         in kickLoop bd tb (i + 1)
              (if i mod 2 = 0 then trigger Kick (Note ''C1'') ''8n'' time None s else s))
      else s)"
  by pat_completeness auto
termination
  by (relation "measure (\<lambda>(bd, tb, i, s). nat tb - i)") auto

text \<open>The event that the kick loop triggers on beat \<open>k\<close>.\<close>

definition kickEvent :: "real \<Rightarrow> nat \<Rightarrow> event" where
  "kickEvent bd k = \<lparr> ev_inst = Kick, ev_pitch = Note ''C1'', ev_len = ''8n'', ev_time = real k * bd, ev_velocity = None \<rparr>"

text \<open>\<open>for (let i = 0; i < totalBeats * 2; i++)\<close>: the hi-hat, one draw for each velocity.\<close>

function hihatLoop :: "(nat \<Rightarrow> real) \<Rightarrow> real \<Rightarrow> int \<Rightarrow> nat \<Rightarrow> transport \<Rightarrow> transport" where
  "hihatLoop rnd bd tb i s =
     (if int i < tb * 2 then
        (let time = real i * bd / 2
         in hihatLoop rnd bd tb (i + 1)
              ((trigger Hihat Unpitched ''16n'' time (Some (rnd (draws s) * 0.3 + 0.1)) s)
                 \<lparr> draws := draws s + 1 \<rparr>))
      else s)"
  by pat_completeness auto
termination
  by (relation "measure (\<lambda>(rnd, bd, tb, i, s). nat (tb * 2) - i)") auto

text \<open>\<open>for (let i = 0; i < totalBeats / 4; i++)\<close>: the bass line; the bound is a quotient of numbers, not of integers.\<close>

function bassLoop :: "string list \<Rightarrow> real \<Rightarrow> int \<Rightarrow> nat \<Rightarrow> transport \<Rightarrow> transport" where
  "bassLoop bn bd tb i s =
     (if real i < real_of_int tb / 4 then
        (let time = real i * bd * 4;
             note = noteAt bn (i mod length bn)
         in bassLoop bn bd tb (i + 1) (trigger Bass note ''2n'' time None s))
      else s)"
  by pat_completeness auto
termination
proof (relation "measure (\<lambda>(bn, bd, tb, i, s). nat tb - i)")
  fix bn :: "string list" and bd :: real and tb :: int and i :: nat and s :: transport
    and x :: real and xa :: pitch
  assume "real i < real_of_int tb / 4"
  then have "i < nat tb" by linarith
  then show "((bn, bd, tb, i + 1, trigger Bass xa ''2n'' x None s), (bn, bd, tb, i, s))
      \<in> measure (\<lambda>(bn, bd, tb, i, s). nat tb - i)"
    by simp
qed simp

text \<open>\<open>for (let j = 0; j < 4; j++)\<close>: the melody notes of one cycle, two draws for each.\<close>

function melodyNotes :: "(nat \<Rightarrow> real) \<Rightarrow> string list \<Rightarrow> real \<Rightarrow> real \<Rightarrow> nat \<Rightarrow> transport \<Rightarrow> transport" where
  "melodyNotes rnd sc bd time j s =
     (if j < 4 then
        (let noteTime = time + real j * bd * 2;
             note = noteAt sc (nat \<lfloor>rnd (draws s) * real (length sc)\<rfloor>);
             vel = rnd (draws s + 1) * 0.3 + 0.3
         in melodyNotes rnd sc bd time (j + 1)
              ((trigger Synth note ''8n'' noteTime (Some vel) s) \<lparr> draws := draws s + 2 \<rparr>))
      else s)"
  by pat_completeness auto
termination
  by (relation "measure (\<lambda>(rnd, sc, bd, time, j, s). 4 - j)") auto

text \<open>\<open>for (let i = 0; i < totalBeats / 8; i++)\<close>: a chord, then the melody notes of the cycle.\<close>

function melodyLoop :: "(nat \<Rightarrow> real) \<Rightarrow> string list \<Rightarrow> string list list \<Rightarrow> real \<Rightarrow> int \<Rightarrow> nat \<Rightarrow> transport \<Rightarrow> transport" where
  "melodyLoop rnd sc ch bd tb i s =
     (if real i < real_of_int tb / 8 then
        (let time = real i * bd * 8;
             chord = chordAt ch (i mod length ch)
         in melodyLoop rnd sc ch bd tb (i + 1)
              (melodyNotes rnd sc bd time 0 (trigger Synth chord ''4n'' time None s)))
      else s)"
  by pat_completeness auto
termination
proof (relation "measure (\<lambda>(rnd, sc, ch, bd, tb, i, s). nat tb - i)")
  fix rnd :: "nat \<Rightarrow> real" and sc :: "string list" and ch :: "string list list"
    and bd :: real and tb :: int and i :: nat and s :: transport and x :: real and xa :: pitch
  assume "real i < real_of_int tb / 8"
  then have "i < nat tb" by linarith
  then show "((rnd, sc, ch, bd, tb, i + 1,
        melodyNotes rnd sc bd x 0 (trigger Synth xa ''4n'' x None s)),
       (rnd, sc, ch, bd, tb, i, s))
      \<in> measure (\<lambda>(rnd, sc, ch, bd, tb, i, s). nat tb - i)"
    by simp
qed simp

text \<open>
  The schedule that the script generated by \<open>_generateToneScript(template, duration, _)\<close>
  hands to the transport: kick, hi-hat, bass, then chords and melody.
\<close>

definition schedule :: "(nat \<Rightarrow> real) \<Rightarrow> genreTemplate \<Rightarrow> int \<Rightarrow> transport" where
  "schedule rnd template d =
     (let bd = beatDuration (tempo template);
          tb = totalBeats (tempo template) d;
          s0 = \<lparr> events = [], draws = 0 \<rparr>;
          s1 = kickLoop bd tb 0 s0;
          s2 = hihatLoop rnd bd tb 0 s1;
          s3 = bassLoop (bassNotes template) bd tb 0 s2
      in melodyLoop rnd (scale template) (chords template) bd tb 0 s3)"

text \<open>
  The melody notes are the synth events that carry a velocity (the chords carry none). An
  event is within the beats when it is a melody note or its time lies in
  \<open>[0, totalBeats * beatDuration)\<close>.
\<close>

definition isMelodyNote :: "event \<Rightarrow> bool" where
  "isMelodyNote e = (ev_inst e = Synth \<and> ev_velocity e \<noteq> None)"

definition withinBeats :: "real \<Rightarrow> int \<Rightarrow> event \<Rightarrow> bool" where
  "withinBeats bd tb e = (isMelodyNote e \<or> (0 \<le> ev_time e \<and> ev_time e < real_of_int tb * bd))"

section \<open>Node's path module, POSIX flavour\<close>

definition slash :: char where
  "slash = CHR ''/''"

text \<open>The segments of a path between its separators; an empty path has one empty segment.\<close>

fun segments :: "string \<Rightarrow> string list" where
  "segments [] = [[]]"
| "segments (c # cs) =
     (if c = slash then [] # segments cs
      else (case segments cs of seg # segs \<Rightarrow> (c # seg) # segs | [] \<Rightarrow> [[c]]))"

fun joinWith :: "string \<Rightarrow> string list \<Rightarrow> string" where
  "joinWith sep [] = []"
| "joinWith sep [x] = x"
| "joinWith sep (x # y # ys) = x @ sep @ joinWith sep (y # ys)"

text \<open>
  \<open>normalizeString\<close>: empty segments and \<open>.\<close> are dropped, \<open>..\<close> removes the segment
  before it when there is one that is not \<open>..\<close> itself, and is kept only where the path
  may climb above its start.
\<close>

fun normalizeString :: "bool \<Rightarrow> string list \<Rightarrow> string list \<Rightarrow> string list" where
  "normalizeString allowAboveRoot res [] = res"
| "normalizeString allowAboveRoot res (seg # segs) =
     (if seg = [] \<or> seg = ''.'' then normalizeString allowAboveRoot res segs
      else if seg = ''..'' then
        (if res \<noteq> [] \<and> last res \<noteq> ''..'' then normalizeString allowAboveRoot (butlast res) segs
         else if allowAboveRoot then normalizeString allowAboveRoot (res @ [''..'']) segs
         else normalizeString allowAboveRoot res segs)
      else normalizeString allowAboveRoot (res @ [seg]) segs)"

definition normalize :: "string \<Rightarrow> string" where
  "normalize path =
     (if path = [] then ''.''
      else
        (let isAbsolute = (hd path = slash);
             trailingSeparator = (last path = slash);
             p = joinWith ''/'' (normalizeString (\<not> isAbsolute) [] (segments path))
         in if p = [] then (if isAbsolute then ''/'' else if trailingSeparator then ''./'' else ''.'')
            else (if isAbsolute then ''/'' else []) @ p @ (if trailingSeparator then ''/'' else [])))"

text \<open>\<open>path.join\<close>: the non-empty arguments, joined by a separator and normalized.\<close>

definition join :: "string list \<Rightarrow> string" where
  "join args =
     (let joined = joinWith ''/'' (filter (\<lambda>a. a \<noteq> []) args)
      in if joined = [] then ''.'' else normalize joined)"

text \<open>\<open>path.basename\<close>: trailing separators are ignored; what follows the last other separator.\<close>

definition basename :: "string \<Rightarrow> string" where
  "basename path =
     rev (takeWhile (\<lambda>c. c \<noteq> slash) (dropWhile (\<lambda>c. c = slash) (rev path)))"

text \<open>\<open>path.dirname\<close>: the path up to the separator before its last segment.\<close>

definition dirname :: "string \<Rightarrow> string" where
  "dirname path =
     (if path = [] then ''.''
      else
        (let hasRoot = (hd path = slash);
             r = dropWhile (\<lambda>c. c \<noteq> slash) (dropWhile (\<lambda>c. c = slash) (rev (tl path)))
         in if r = [] then (if hasRoot then ''/'' else ''.'')
            else if hasRoot \<and> tl r = [] then ''//''
            else hd path # rev (tl r)))"

text \<open>A path segment that normalization keeps as it is.\<close>

definition plainSegment :: "string \<Rightarrow> bool" where
  "plainSegment s = (s \<noteq> [] \<and> s \<noteq> ''.'' \<and> s \<noteq> ''..'' \<and> slash \<notin> set s)"

section \<open>Objects, files and failures\<close>

text \<open>
  Reading \<open>obj[key]\<close> on an object literal: an own property, a member inherited from
  \<open>Object.prototype\<close> (a function or an object, so truthy), or \<open>undefined\<close>.
\<close>

datatype 'a property = Own 'a | Inherited | Absent

definition objectPrototypeKeys :: "string list" where
  "objectPrototypeKeys =
     [''constructor'', ''__defineGetter__'', ''__defineSetter__'', ''hasOwnProperty'',
      ''__lookupGetter__'', ''__lookupSetter__'', ''isPrototypeOf'', ''propertyIsEnumerable'',
      ''toString'', ''valueOf'', ''__proto__'', ''toLocaleString'']"

definition getProperty :: "(string \<times> 'a) list \<Rightarrow> string \<Rightarrow> 'a property" where
  "getProperty obj key =
     (case map_of obj key of
        Some v \<Rightarrow> Own v
      | None \<Rightarrow> if key \<in> set objectPrototypeKeys then Inherited else Absent)"

text \<open>\<open>a || b\<close> on such a read: only \<open>undefined\<close> is falsy.\<close>

definition orElse :: "'a property \<Rightarrow> 'a property \<Rightarrow> 'a property" where
  "orElse a b = (case a of Absent \<Rightarrow> b | _ \<Rightarrow> a)"

text \<open>The stages that call a collaborator (node, the canvas, ffmpeg) and may fail there.\<close>

datatype stage =
  MusicSynthesis | IntroFrame nat | MainFrame nat | OutroFrame nat
  | RenderIntro | RenderMain | RenderOutro | Concatenation

datatype error = Failed stage | TypeError | ENOENT string

text \<open>The calls made on a canvas context, in order.\<close>

datatype cmd =
  FillStyle "string option" | StrokeStyle "string option" | GlobalAlpha real | LineWidth real
  | Font string | TextAlign string | TextBaseline string
  | FillRect real real real real | FillText string real real
  | Save | Restore | Translate real real | Rotate real
  | BeginPath | ClosePath | MoveTo real real | LineTo real real
  | Arc real real real real real | Fill | Stroke

datatype content =
  Directory
  | Image "cmd list"
  | Script genreTemplate int string
  | Audio "event list"
  | Video
  | Partial
  | ConcatList "string list"

text \<open>
  The file system is the list of what was written, the latest first; a path exists when
  it has an entry. \<open>draws_main\<close> counts the calls of \<open>Math.random()\<close> in the main process.
\<close>

record world =
  files :: "(string \<times> content) list"
  draws_main :: nat

text \<open>
  What the run does not decide: where the program lives, the clock, the random numbers of
  the main process and of the script's process, the stage that fails (if any), and whether
  a failing encoder leaves its unfinished output behind.
\<close>

record env =
  env_dirname :: string
  env_now :: nat
  env_random :: "nat \<Rightarrow> real"
  env_script_random :: "nat \<Rightarrow> real"
  env_fault :: "stage option"
  env_partial :: bool

type_synonym 'a io = "world \<Rightarrow> (error + 'a) \<times> world"

definition andThen :: "'a io \<Rightarrow> ('a \<Rightarrow> 'b io) \<Rightarrow> 'b io" where
  "andThen m f w = (case m w of (Inl e, w') \<Rightarrow> (Inl e, w') | (Inr x, w') \<Rightarrow> f x w')"

definition existsSync :: "world \<Rightarrow> string \<Rightarrow> bool" where
  "existsSync w p = (p \<in> fst ` set (files w))"

text \<open>
  \<open>fs.writeFileSync\<close> into a directory that exists. Every write of the program goes into a
  directory that was created before it, but for \<open>generateMusic\<close>, which looks first.
\<close>

definition writeFileSync :: "string \<Rightarrow> content \<Rightarrow> world \<Rightarrow> world" where
  "writeFileSync p c w = w\<lparr> files := (p, c) # files w \<rparr>"

definition unlinkSync :: "string \<Rightarrow> world \<Rightarrow> world" where
  "unlinkSync p w = w\<lparr> files := filter (\<lambda>(q, c). q \<noteq> p) (files w) \<rparr>"

text \<open>\<open>q\<close> is \<open>dir\<close> or lies below it.\<close>

definition below :: "string \<Rightarrow> string \<Rightarrow> bool" where
  "below dir q = (q = dir \<or> prefix (dir @ ''/'') q)"

text \<open>\<open>fs.rmSync(dir, { recursive: true, force: true })\<close>.\<close>

definition rmSync :: "string \<Rightarrow> world \<Rightarrow> world" where
  "rmSync dir w = w\<lparr> files := filter (\<lambda>(q, c). \<not> below dir q) (files w) \<rparr>"

text \<open>\<open>fs.readdirSync(dir)\<close>: the names directly inside \<open>dir\<close>.\<close>

definition readdirSync :: "world \<Rightarrow> string \<Rightarrow> string list" where
  "readdirSync w dir =
     remdups (map (\<lambda>(q, c). basename q) (filter (\<lambda>(q, c). q \<noteq> dir \<and> dirname q = dir) (files w)))"

text \<open>The directories above a path, the outermost first.\<close>

definition ancestors :: "string \<Rightarrow> string list" where
  "ancestors p =
     (let segs = filter (\<lambda>s. s \<noteq> []) (segments p);
          root = (if p \<noteq> [] \<and> hd p = slash then ''/'' else [])
      in map (\<lambda>k. root @ joinWith ''/'' (take k segs)) [1..<length segs])"

text \<open>\<open>fs.mkdirSync(dir, { recursive: true })\<close>: the missing directories above, then \<open>dir\<close>.\<close>

definition mkdirSync :: "string \<Rightarrow> world \<Rightarrow> world" where
  "mkdirSync dir w =
     foldl (\<lambda>w' d. if existsSync w' d then w' else writeFileSync d Directory w') w
       (ancestors dir @ [dir])"

text \<open>\<open>if (!fs.existsSync(dir)) fs.mkdirSync(dir, { recursive: true })\<close>.\<close>

definition ensureDir :: "string \<Rightarrow> world \<Rightarrow> world" where
  "ensureDir dir w = (if \<not> existsSync w dir then mkdirSync dir w else w)"

text \<open>\<open>for (let i = start; i < n; i++) body\<close>, without and with a failing body.\<close>

function forLoop :: "nat \<Rightarrow> nat \<Rightarrow> (nat \<Rightarrow> 's \<Rightarrow> 's) \<Rightarrow> 's \<Rightarrow> 's" where
  "forLoop i n body s = (if i < n then forLoop (i + 1) n body (body i s) else s)"
  by pat_completeness auto
termination
  by (relation "measure (\<lambda>(i, n, body, s). n - i)") auto

function forLoopIO :: "nat \<Rightarrow> int \<Rightarrow> (nat \<Rightarrow> unit io) \<Rightarrow> unit io" where
  "forLoopIO i n body w =
     (if int i < n then
        (case body i w of
           (Inl e, w') \<Rightarrow> (Inl e, w')
         | (Inr u, w') \<Rightarrow> forLoopIO (i + 1) n body w')
      else (Inr (), w))"
  by pat_completeness auto
termination
  by (relation "measure (\<lambda>(i, n, body, w). nat n - i)") auto

text \<open>\<open>String(n)\<close> for a whole number, and \<open>padStart\<close>.\<close>

definition digit :: "nat \<Rightarrow> char" where
  "digit d = ''0123456789'' ! d"

function showNat :: "nat \<Rightarrow> string" where
  "showNat n = (if n < 10 then [digit n] else showNat (n div 10) @ [digit (n mod 10)])"
  by pat_completeness auto
termination
  by (relation "measure id") auto

definition padStart :: "nat \<Rightarrow> char \<Rightarrow> string \<Rightarrow> string" where
  "padStart n c s = replicate (n - length s) c @ s"

text \<open>\<open>toUpperCase\<close> on the ASCII letters.\<close>

definition toUpperCase :: "string \<Rightarrow> string" where
  "toUpperCase s =
     map (\<lambda>c. case map_of (zip ''abcdefghijklmnopqrstuvwxyz'' ''ABCDEFGHIJKLMNOPQRSTUVWXYZ'') c of
                Some u \<Rightarrow> u | None \<Rightarrow> c) s"

section \<open>Visual generator (src/visualGenerator.js)\<close>

definition width :: real where "width = 1920"
definition height :: real where "height = 1080"
definition fps :: real where "fps = 30"

record visualStyle =
  colors :: "string list"
  backgroundColor :: string
  shapeType :: string
  particleCount :: nat
  waveAmplitude :: real

definition styles :: "(string \<times> visualStyle) list" where
  "styles =
     [(''electronic'', \<lparr> colors = [''#00ffff'', ''#ff00ff'', ''#ffff00'', ''#00ff00''],
         backgroundColor = ''#000000'', shapeType = ''geometric'', particleCount = 50,
         waveAmplitude = 100 \<rparr>),
      (''ambient'', \<lparr> colors = [''#4a90e2'', ''#7b68ee'', ''#9370db'', ''#ba55d3''],
         backgroundColor = ''#0a0a1a'', shapeType = ''organic'', particleCount = 30,
         waveAmplitude = 150 \<rparr>),
      (''hiphop'', \<lparr> colors = [''#ff4500'', ''#ffa500'', ''#ffff00'', ''#ff6347''],
         backgroundColor = ''#1a1a1a'', shapeType = ''sharp'', particleCount = 40,
         waveAmplitude = 80 \<rparr>),
      (''pop'', \<lparr> colors = [''#ff1493'', ''#ff69b4'', ''#ffc0cb'', ''#ffb6c1''],
         backgroundColor = ''#ffffff'', shapeType = ''round'', particleCount = 60,
         waveAmplitude = 120 \<rparr>),
      (''techno'', \<lparr> colors = [''#ff0000'', ''#00ff00'', ''#0000ff'', ''#ffffff''],
         backgroundColor = ''#000000'', shapeType = ''geometric'', particleCount = 70,
         waveAmplitude = 90 \<rparr>)]"

text \<open>\<open>return styles[genre] || styles.electronic\<close>.\<close>

definition getVisualStyle :: "string \<Rightarrow> visualStyle property" where
  "getVisualStyle genre = orElse (getProperty styles genre) (getProperty styles ''electronic'')"

definition drawVisualizer :: "real \<Rightarrow> real \<Rightarrow> visualStyle \<Rightarrow> cmd list \<Rightarrow> cmd list" where
  "drawVisualizer beat intensity style ctx =
     (let barCount = 64;
          barWidth = width / real barCount;
          centerY = height / 2;
          bars = forLoop 0 barCount
            (\<lambda>i c.
               let frequency = real i / real barCount;
                   phase = beat + frequency * 4;
                   height = (sin (phase * pi) * 0.5 + 0.5) * waveAmplitude style * intensity;
                   colorIndex = nat \<lfloor>(real i / real barCount) * real (length (colors style))\<rfloor>;
                   x = real i * barWidth;
                   h = height * 2
               in c @ [FillStyle (element (colors style) colorIndex),
                       FillRect x (centerY - h) (barWidth - 2) (h * 2)])
            (ctx @ [Save])
      in bars @ [Restore])"

definition drawParticles :: "real \<Rightarrow> real \<Rightarrow> visualStyle \<Rightarrow> cmd list \<Rightarrow> cmd list" where
  "drawParticles time beat style ctx =
     (let particles = forLoop 0 (particleCount style)
            (\<lambda>i c.
               let angle = (real i / real (particleCount style)) * pi * 2 + time * 0.5;
                   radius = 300 + sin (beat + real i) * 100;
                   x = width / 2 + cos angle * radius;
                   y = height / 2 + sin angle * radius;
                   size = 5 + sin (beat * 2 + real i) * 3
               in c @ [FillStyle (element (colors style) (i mod length (colors style))),
                       GlobalAlpha 0.6, BeginPath, Arc x y size 0 (pi * 2), Fill])
            (ctx @ [Save])
      in particles @ [Restore])"

definition drawGeometricPatterns :: "real \<Rightarrow> visualStyle \<Rightarrow> cmd list \<Rightarrow> cmd list" where
  "drawGeometricPatterns beat style ctx =
     (let rotationSpeed = 0.5;
          rotation = beat * rotationSpeed;
          shapes = forLoop 0 3
            (\<lambda>i c.
               let size = 150 + real i * 50;
                   c1 = c @ [Save, Rotate (rotation + (real i * pi * 2 / 3)),
                             StrokeStyle (element (colors style) (i mod length (colors style))),
                             LineWidth 3, GlobalAlpha 0.4, BeginPath];
                   c2 = (if shapeType style = ''geometric'' then
                           forLoop 0 6
                             (\<lambda>j cc.
                                let angle = (real j / 6) * pi * 2;
                                    x = cos angle * size;
                                    y = sin angle * size
                                in cc @ [if j = 0 then MoveTo x y else LineTo x y])
                             c1 @ [ClosePath]
                         else c1 @ [Arc 0 0 size 0 (pi * 2)])
               in c2 @ [Stroke, Restore])
            (ctx @ [Save, Translate (width / 2) (height / 2)])
      in shapes @ [Restore])"

text \<open>What \<open>_generateFrame\<close> draws on a fresh canvas.\<close>

definition frameCanvas :: "real \<Rightarrow> real \<Rightarrow> visualStyle \<Rightarrow> cmd list" where
  "frameCanvas beat time style =
     (let ctx = [FillStyle (Some (backgroundColor style)), FillRect 0 0 width height];
          intensity = sin (beat * pi) * 0.5 + 0.5
      in drawGeometricPatterns beat style
           (drawParticles time beat style (drawVisualizer beat intensity style ctx)))"

definition frameName :: "string \<Rightarrow> nat \<Rightarrow> string" where
  "frameName kind frameNum = kind @ ''_'' @ padStart 6 (CHR ''0'') (showNat frameNum) @ ''.png''"

definition generateFrame :: "env \<Rightarrow> nat \<Rightarrow> real \<Rightarrow> real \<Rightarrow> int \<Rightarrow> visualStyle \<Rightarrow> string \<Rightarrow> unit io" where
  "generateFrame e frameNum beat time d style outputDir w =
     (let canvas = frameCanvas beat time style;
          framePath = join [outputDir, frameName ''frame'' frameNum]
      in if env_fault e = Some (MainFrame frameNum) then (Inl (Failed (MainFrame frameNum)), w)
         else (Inr (), writeFileSync framePath (Image canvas) w))"

definition introCanvas :: "real \<Rightarrow> string \<Rightarrow> cmd list" where
  "introCanvas progress genre =
     (let opacity = min (progress * 2) 1;
          title = toUpperCase genre @ '' MUSIC VIDEO''
      in [FillStyle (Some ''#000000''), FillRect 0 0 width height,
          Save, GlobalAlpha opacity, FillStyle (Some ''#ffffff''), Font ''bold 120px Arial'',
          TextAlign ''center'', TextBaseline ''middle'',
          FillText title (width / 2) (height / 2),
          Font ''48px Arial'', FillText ''Generated by AI'' (width / 2) (height / 2 + 100),
          Restore])"

definition generateIntroFrame :: "env \<Rightarrow> nat \<Rightarrow> real \<Rightarrow> string \<Rightarrow> string \<Rightarrow> unit io" where
  "generateIntroFrame e frameNum progress genre outputDir w =
     (let canvas = introCanvas progress genre;
          framePath = join [outputDir, frameName ''intro'' frameNum]
      in if env_fault e = Some (IntroFrame frameNum) then (Inl (Failed (IntroFrame frameNum)), w)
         else (Inr (), writeFileSync framePath (Image canvas) w))"

definition outroCanvas :: "real \<Rightarrow> string \<Rightarrow> cmd list" where
  "outroCanvas progress genre =
     (let opacity = max (1 - progress * 2) 0
      in [FillStyle (Some ''#000000''), FillRect 0 0 width height,
          Save, GlobalAlpha opacity, FillStyle (Some ''#ffffff''), Font ''bold 80px Arial'',
          TextAlign ''center'', TextBaseline ''middle'',
          FillText ''THANK YOU'' (width / 2) (height / 2 - 50),
          Font ''48px Arial'', FillText ''FOR WATCHING'' (width / 2) (height / 2 + 50),
          Restore])"

definition generateOutroFrame :: "env \<Rightarrow> nat \<Rightarrow> real \<Rightarrow> string \<Rightarrow> string \<Rightarrow> unit io" where
  "generateOutroFrame e frameNum progress genre outputDir w =
     (let canvas = outroCanvas progress genre;
          framePath = join [outputDir, frameName ''outro'' frameNum]
      in if env_fault e = Some (OutroFrame frameNum) then (Inl (Failed (OutroFrame frameNum)), w)
         else (Inr (), writeFileSync framePath (Image canvas) w))"

record musicMetadata =
  md_tempo :: real
  md_duration :: int
  md_genre :: string
  md_path :: string

record visualMetadata =
  frameCount :: int
  vm_fps :: real
  vm_width :: real
  vm_height :: real
  vm_framesDir :: string

definition generateVisuals :: "env \<Rightarrow> musicMetadata \<Rightarrow> string \<Rightarrow> visualMetadata io" where
  "generateVisuals e musicMetadata outputDir w =
     (let totalFrames = \<lfloor>real_of_int (md_duration musicMetadata) * fps\<rfloor>;
          beatsPerSecond = md_tempo musicMetadata / 60;
          w1 = ensureDir outputDir w;
          result = \<lparr> frameCount = totalFrames, vm_fps = fps, vm_width = width,
                     vm_height = height, vm_framesDir = outputDir \<rparr>
      in case getVisualStyle (md_genre musicMetadata) of
           Own visualStyle \<Rightarrow>
             andThen
               (forLoopIO 0 totalFrames
                  (\<lambda>frameNum.
                     let time = real frameNum / fps;
                         beat = time * beatsPerSecond
                     in generateFrame e frameNum beat time (md_duration musicMetadata)
                          visualStyle outputDir))
               (\<lambda>u w'. (Inr result, w')) w1
         | _ \<Rightarrow> if 0 < totalFrames then (Inl TypeError, w1) else (Inr result, w1))"

definition generateIntro :: "env \<Rightarrow> string \<Rightarrow> string \<Rightarrow> real \<Rightarrow> visualMetadata io" where
  "generateIntro e genre outputDir durationSeconds w =
     (let totalFrames = \<lfloor>durationSeconds * fps\<rfloor>;
          w1 = ensureDir outputDir w
      in andThen
           (forLoopIO 0 totalFrames
              (\<lambda>frameNum.
                 let progress = real frameNum / real_of_int totalFrames
                 in generateIntroFrame e frameNum progress genre outputDir))
           (\<lambda>u w'. (Inr \<lparr> frameCount = totalFrames, vm_fps = fps, vm_width = width,
                            vm_height = height, vm_framesDir = outputDir \<rparr>, w')) w1)"

definition generateOutro :: "env \<Rightarrow> string \<Rightarrow> string \<Rightarrow> real \<Rightarrow> visualMetadata io" where
  "generateOutro e genre outputDir durationSeconds w =
     (let totalFrames = \<lfloor>durationSeconds * fps\<rfloor>;
          w1 = ensureDir outputDir w
      in andThen
           (forLoopIO 0 totalFrames
              (\<lambda>frameNum.
                 let progress = real frameNum / real_of_int totalFrames
                 in generateOutroFrame e frameNum progress genre outputDir))
           (\<lambda>u w'. (Inr \<lparr> frameCount = totalFrames, vm_fps = fps, vm_width = width,
                            vm_height = height, vm_framesDir = outputDir \<rparr>, w')) w1)"

section \<open>Music generator (src/musicGenerator.js)\<close>

text \<open>\<open>this.genreTemplates[genre] || this.genreTemplates.electronic\<close>.\<close>

definition templateFor :: "string \<Rightarrow> genreTemplate property" where
  "templateFor genre =
     orElse (getProperty genreTemplates genre) (getProperty genreTemplates ''electronic'')"

text \<open>
  The doubles. A finite double is a whole multiple of \<open>2 powi q\<close>, where \<open>q\<close> is 52 below
  the binary exponent of the number and never below \<open>-1074\<close> (the subnormal numbers). An
  operation on doubles returns the double nearest to the exact result, and of two nearest
  ones the one with an even multiple. Overflow to infinity is left out: no number here comes
  near the largest double.
\<close>

definition roundEven :: "real \<Rightarrow> int" where
  "roundEven y =
     (let f = \<lfloor>y\<rfloor>; d = y - real_of_int f
      in if d < 1 / 2 then f else if 1 / 2 < d then f + 1 else if even f then f else f + 1)"

definition ulpExponent :: "real \<Rightarrow> int" where
  "ulpExponent x = max \<lfloor>log 2 \<bar>x\<bar>\<rfloor> (- 1022) - 52"

definition roundDouble :: "real \<Rightarrow> real" where
  "roundDouble x =
     (if x = 0 then 0
      else real_of_int (roundEven (x / 2 powi ulpExponent x)) * 2 powi ulpExponent x)"

text \<open>
  \<open>Math.floor(Math.random() * (template.duration.max - template.duration.min) + template.duration.min)\<close>
  for the draw \<open>r\<close>, a double: the difference, the product and the sum are each rounded.
\<close>

definition pickDuration :: "genreTemplate \<Rightarrow> real \<Rightarrow> int" where
  "pickDuration template r =
     \<lfloor>roundDouble
        (roundDouble
           (r * roundDouble (real_of_int (max_seconds (duration template))
                             - real_of_int (min_seconds (duration template))))
         + real_of_int (min_seconds (duration template)))\<rfloor>"

text \<open>
  A directory into which a file can be written: one that exists; the root and the current
  directory always do.
\<close>

definition directoryExists :: "world \<Rightarrow> string \<Rightarrow> bool" where
  "directoryExists w d = (d = ''/'' \<or> d = ''.'' \<or> existsSync w d)"

text \<open>
  \<open>generateMusic(genre, outputPath)\<close>. Nothing in it creates the directory of the script:
  \<open>fs.writeFileSync(scriptPath, scriptContent)\<close> throws where that directory is missing.
\<close>

definition generateMusic :: "env \<Rightarrow> string \<Rightarrow> string \<Rightarrow> musicMetadata io" where
  "generateMusic e genre outputPath w =
     (let r = env_random e (draws_main w);
          w1 = w\<lparr> draws_main := draws_main w + 1 \<rparr>
      in case templateFor genre of
           Own template \<Rightarrow>
             (let d = pickDuration template r;
                  scriptContent = Script template d outputPath;
                  scriptPath = join [dirname outputPath, ''temp_music_script.js'']
              in if \<not> directoryExists w1 (dirname scriptPath) then (Inl (ENOENT scriptPath), w1)
                 else
                   (let w2 = writeFileSync scriptPath scriptContent w1
                    in if env_fault e = Some MusicSynthesis then
                         (Inl (Failed MusicSynthesis),
                          if existsSync w2 scriptPath then unlinkSync scriptPath w2 else w2)
                       else
                         (let w3 = writeFileSync outputPath
                                     (Audio (events (schedule (env_script_random e) template d))) w2
                          in (Inr \<lparr> md_tempo = tempo template, md_duration = d, md_genre = genre,
                                    md_path = outputPath \<rparr>,
                              unlinkSync scriptPath w3))))
         | _ \<Rightarrow> (Inl TypeError, w1))"

section \<open>Video renderer (src/videoRenderer.js)\<close>

text \<open>One run of ffmpeg: its output, or a failure that may leave the output unfinished.\<close>

definition ffmpeg :: "env \<Rightarrow> stage \<Rightarrow> string \<Rightarrow> unit io" where
  "ffmpeg e st outputPath w =
     (if env_fault e = Some st then
        (Inl (Failed st), if env_partial e then writeFileSync outputPath Partial w else w)
      else (Inr (), writeFileSync outputPath Video w))"

definition renderIntro :: "env \<Rightarrow> visualMetadata \<Rightarrow> string \<Rightarrow> string \<Rightarrow> unit io" where
  "renderIntro e introMetadata audioPath outputPath = ffmpeg e RenderIntro outputPath"

definition renderMain :: "env \<Rightarrow> visualMetadata \<Rightarrow> string \<Rightarrow> string \<Rightarrow> unit io" where
  "renderMain e visualMetadata audioPath outputPath = ffmpeg e RenderMain outputPath"

definition renderOutro :: "env \<Rightarrow> visualMetadata \<Rightarrow> string \<Rightarrow> unit io" where
  "renderOutro e outroMetadata outputPath = ffmpeg e RenderOutro outputPath"

text \<open>The length \<open>-t\<close> that \<open>renderIntro\<close> and \<open>renderOutro\<close> hand to ffmpeg.\<close>

definition segmentDuration :: "visualMetadata \<Rightarrow> real" where
  "segmentDuration m = real_of_int (frameCount m) / vm_fps m"

definition removeIfExists :: "string \<Rightarrow> world \<Rightarrow> world" where
  "removeIfExists p w = (if existsSync w p then unlinkSync p w else w)"

definition concatenateVideos :: "env \<Rightarrow> string list \<Rightarrow> string \<Rightarrow> unit io" where
  "concatenateVideos e videoPaths outputPath w =
     (let concatListPath = join [dirname outputPath, ''concat_list.txt''];
          w1 = writeFileSync concatListPath (ConcatList videoPaths) w
      in case ffmpeg e Concatenation outputPath w1 of
           (r, w2) \<Rightarrow> (r, removeIfExists concatListPath w2))"

definition removeSegments :: "string \<Rightarrow> string \<Rightarrow> string \<Rightarrow> string \<Rightarrow> world \<Rightarrow> world" where
  "removeSegments introPath mainPath outroPath tempDir w =
     (let w1 = removeIfExists introPath w;
          w2 = removeIfExists mainPath w1;
          w3 = removeIfExists outroPath w2
      in if existsSync w3 tempDir then rmSync tempDir w3 else w3)"

definition renderComplete ::
  "env \<Rightarrow> visualMetadata \<Rightarrow> visualMetadata \<Rightarrow> visualMetadata \<Rightarrow> string \<Rightarrow> string \<Rightarrow> string io" where
  "renderComplete e introMetadata visualMetadata outroMetadata audioPath outputPath w =
     (let tempDir = join [dirname outputPath, ''temp_segments''];
          w1 = ensureDir tempDir w;
          introPath = join [tempDir, ''intro.mp4''];
          mainPath = join [tempDir, ''main.mp4''];
          outroPath = join [tempDir, ''outro.mp4'']
      in case
           andThen (renderIntro e introMetadata audioPath introPath) (\<lambda>u.
           andThen (renderMain e visualMetadata audioPath mainPath) (\<lambda>u.
           andThen (renderOutro e outroMetadata outroPath) (\<lambda>u.
           andThen (concatenateVideos e [introPath, mainPath, outroPath] outputPath) (\<lambda>u w'.
             (let w'' = removeSegments introPath mainPath outroPath tempDir w'
              in if existsSync w'' outputPath then (Inr outputPath, w'')
                 else (Inl (ENOENT outputPath), w'')))))) w1
         of
           (Inl err, w2) \<Rightarrow> (Inl err, removeSegments introPath mainPath outroPath tempDir w2)
         | (Inr p, w2) \<Rightarrow> (Inr p, w2))"

section \<open>The orchestrator (generate.js)\<close>

record projectPaths =
  projectDir :: string
  framesDir :: string
  introDir :: string
  outroDir :: string
  audioPath :: string
  videoPath :: string

definition outputDir :: "env \<Rightarrow> string" where
  "outputDir e = join [env_dirname e, ''output'']"

text \<open>
  \<open>outputName ? path.basename(outputName) : `music_video_${genre}_${timestamp}`\<close>;
  \<open>null\<close> and the empty string are falsy.
\<close>

definition sanitizedName :: "env \<Rightarrow> string \<Rightarrow> string option \<Rightarrow> string" where
  "sanitizedName e genre outputName =
     (case outputName of
        Some n \<Rightarrow> if n \<noteq> [] then basename n
                  else ''music_video_'' @ genre @ ''_'' @ showNat (env_now e)
      | None \<Rightarrow> ''music_video_'' @ genre @ ''_'' @ showNat (env_now e))"

definition paths :: "env \<Rightarrow> string \<Rightarrow> string option \<Rightarrow> projectPaths" where
  "paths e genre outputName =
     (let name = sanitizedName e genre outputName;
          pd = join [outputDir e, name]
      in \<lparr> projectDir = pd,
           framesDir = join [pd, ''frames''],
           introDir = join [pd, ''intro''],
           outroDir = join [pd, ''outro''],
           audioPath = join [pd, ''audio.wav''],
           videoPath = join [outputDir e, name @ ''.mp4''] \<rparr>)"

definition cleanupTempFiles :: "string \<Rightarrow> world \<Rightarrow> world" where
  "cleanupTempFiles pd w =
     (let w1 = foldl
            (\<lambda>w' dir.
               let fullPath = join [pd, dir]
               in if existsSync w' fullPath then
                    rmSync fullPath
                      (foldl (\<lambda>w'' file. unlinkSync (join [fullPath, file]) w'') w'
                         (readdirSync w' fullPath))
                  else w')
            w [''frames'', ''intro'', ''outro''];
          w2 = removeIfExists (join [pd, ''audio.wav'']) w1
      in if existsSync w2 pd \<and> readdirSync w2 pd = [] then rmSync pd w2 else w2)"

text \<open>
  \<open>generate(genre, outputName)\<close>. Its \<open>catch\<close> block logs the error and throws it again,
  so a failure leaves the world as the failing step left it.
\<close>

definition generate :: "env \<Rightarrow> string \<Rightarrow> string option \<Rightarrow> string io" where
  "generate e genre outputName w =
     (let p = paths e genre outputName;
          w1 = foldl (\<lambda>w' dir. ensureDir dir w') w
                 [projectDir p, framesDir p, introDir p, outroDir p]
      in andThen (generateMusic e genre (audioPath p)) (\<lambda>musicMetadata.
         andThen (generateIntro e genre (introDir p) 3) (\<lambda>introMetadata.
         andThen (generateVisuals e musicMetadata (framesDir p)) (\<lambda>visualMetadata.
         andThen (generateOutro e genre (outroDir p) 3) (\<lambda>outroMetadata.
         andThen (renderComplete e introMetadata visualMetadata outroMetadata
                    (audioPath p) (videoPath p)) (\<lambda>videoMetadata w'.
           (Inr (videoPath p), cleanupTempFiles (projectDir p) w')))))) w1)"

section \<open>What the frame loops write\<close>

text \<open>
  The file that one turn of the loop of \<open>generateVisuals\<close>, \<open>generateIntro\<close> and
  \<open>generateOutro\<close> writes for frame \<open>frameNum\<close>.
\<close>

definition mainFrameFile :: "real \<Rightarrow> visualStyle \<Rightarrow> string \<Rightarrow> nat \<Rightarrow> string \<times> content" where
  "mainFrameFile bpm style dir frameNum =
     (join [dir, frameName ''frame'' frameNum],
      Image (frameCanvas ((real frameNum / fps) * (bpm / 60)) (real frameNum / fps) style))"

definition introFrameFile :: "int \<Rightarrow> string \<Rightarrow> string \<Rightarrow> nat \<Rightarrow> string \<times> content" where
  "introFrameFile totalFrames genre dir frameNum =
     (join [dir, frameName ''intro'' frameNum],
      Image (introCanvas (real frameNum / real_of_int totalFrames) genre))"

definition outroFrameFile :: "int \<Rightarrow> string \<Rightarrow> string \<Rightarrow> nat \<Rightarrow> string \<times> content" where
  "outroFrameFile totalFrames genre dir frameNum =
     (join [dir, frameName ''outro'' frameNum],
      Image (outroCanvas (real frameNum / real_of_int totalFrames) genre))"

text \<open>The files of a world, with \<open>fs\<close> written on top.\<close>

definition withFiles :: "(string \<times> content) list \<Rightarrow> world \<Rightarrow> world" where
  "withFiles fs w = w\<lparr> files := fs @ files w \<rparr>"

text \<open>The values given to \<open>globalAlpha\<close> on a canvas, and in an image file.\<close>

definition alphas :: "cmd list \<Rightarrow> real list" where
  "alphas cs = concat (map (\<lambda>c. case c of GlobalAlpha a \<Rightarrow> [a] | _ \<Rightarrow> []) cs)"

definition opacities :: "content \<Rightarrow> real list" where
  "opacities c = (case c of Image cs \<Rightarrow> alphas cs | _ \<Rightarrow> [])"

text \<open>The two calls that draw bar \<open>i\<close> of the visualizer, for a given height of the bars.\<close>

definition barCommands :: "visualStyle \<Rightarrow> (nat \<Rightarrow> real) \<Rightarrow> nat \<Rightarrow> cmd list" where
  "barCommands style barHeight i =
     [FillStyle (element (colors style) (nat \<lfloor>(real i / 64) * real (length (colors style))\<rfloor>)),
      FillRect (real i * (width / 64)) (height / 2 - 2 * barHeight i) (width / 64 - 2)
        (4 * barHeight i)]"

section \<open>The formulas of the specification, in its words\<close>

text \<open>
  Section 4.2 of the specification: \<open>beat = (frameIndex / fps) * (tempo / 60)\<close>,
  \<open>intensity = sin(beat * pi) * 0.5 + 0.5\<close>, bar \<open>i\<close> of 64 has phase
  \<open>beat + (i / 64) * 4\<close> and height
  \<open>(sin(phase * pi) * 0.5 + 0.5) * style.waveAmplitude * intensity\<close>.
\<close>

definition spec_beat :: "nat \<Rightarrow> real \<Rightarrow> real \<Rightarrow> real" where
  "spec_beat frameIndex rate bpm = (real frameIndex / rate) * (bpm / 60)"

definition spec_intensity :: "real \<Rightarrow> real" where
  "spec_intensity beat = sin (beat * pi) * 0.5 + 0.5"

definition spec_phase :: "real \<Rightarrow> nat \<Rightarrow> real" where
  "spec_phase beat i = beat + (real i / 64) * 4"

definition spec_barHeight :: "real \<Rightarrow> visualStyle \<Rightarrow> nat \<Rightarrow> real" where
  "spec_barHeight beat style i =
     (sin (spec_phase beat i * pi) * 0.5 + 0.5) * waveAmplitude style * spec_intensity beat"

section \<open>The schedule: the kick layer and the melody notes\<close>

declare kickLoop.simps [simp del] hihatLoop.simps [simp del] bassLoop.simps [simp del]
  melodyNotes.simps [simp del] melodyLoop.simps [simp del]
  showNat.simps [simp del] forLoop.simps [simp del] forLoopIO.simps [simp del]

lemma kickLoop_events:
  "events (kickLoop bd tb i s) = events s @ map (kickEvent bd) (filter (\<lambda>k. k mod 2 = 0) [i..<nat tb])"
proof (induction bd tb i s rule: kickLoop.induct)
  case (1 bd tb i s)
  show ?case
  proof (cases "int i < tb")
    case True
    then have up: "[i..<nat tb] = i # [i + 1..<nat tb]"
      by (simp add: upt_conv_Cons)
    show ?thesis
      using True "1.IH" [OF True refl]
      by (subst kickLoop.simps) (simp add: up trigger_def kickEvent_def Let_def)
  next
    case False
    then show ?thesis
      by (subst kickLoop.simps) simp
  qed
qed

lemma melodyNotes_events:
  "set (events s) \<subseteq> set (events (melodyNotes rnd sc bd t j s))"
proof (induction rnd sc bd t j s rule: melodyNotes.induct)
  case (1 rnd sc bd t j s)
  show ?case
  proof (cases "j < 4")
    case True
    show ?thesis
      using "1.IH" [OF True refl refl refl]
      by (subst melodyNotes.simps) (auto simp: True trigger_def Let_def)
  next
    case False
    then show ?thesis by (subst melodyNotes.simps) simp
  qed
qed

lemma melodyNotes_last:
  "j \<le> 3 \<Longrightarrow> \<exists>e \<in> set (events (melodyNotes rnd sc bd t j s)). isMelodyNote e \<and> ev_time e = t + 3 * bd * 2"
proof (induction rnd sc bd t j s rule: melodyNotes.induct)
  case (1 rnd sc bd t j s)
  then have j4: "j < 4" by simp
  show ?case
  proof (cases "j = 3")
    case True
    have "\<lparr> ev_inst = Synth, ev_pitch = noteAt sc (nat \<lfloor>rnd (draws s) * real (length sc)\<rfloor>),
            ev_len = ''8n'', ev_time = t + 3 * bd * 2, ev_velocity = Some (rnd (draws s + 1) * 0.3 + 0.3) \<rparr>
          \<in> set (events (melodyNotes rnd sc bd t j s))"
      using melodyNotes_events [of "(trigger Synth (noteAt sc (nat \<lfloor>rnd (draws s) * real (length sc)\<rfloor>)) ''8n'' (t + 3 * bd * 2) (Some (rnd (draws s + 1) * 0.3 + 0.3)) s) \<lparr> draws := draws s + 2 \<rparr>" rnd sc bd t 4]
      by (subst melodyNotes.simps) (auto simp: True trigger_def Let_def)
    then show ?thesis by (force simp: isMelodyNote_def)
  next
    case False
    with "1.prems" have "j + 1 \<le> 3" by simp
    from "1.IH" [OF j4 refl refl refl this] show ?thesis
      by (subst melodyNotes.simps) (simp add: j4 Let_def)
  qed
qed

lemma melodyLoop_mono:
  "set (events s) \<subseteq> set (events (melodyLoop rnd sc ch bd tb i s))"
proof (induction rnd sc ch bd tb i s rule: melodyLoop.induct)
  case (1 rnd sc ch bd tb i s)
  show ?case
  proof (cases "real i < real_of_int tb / 8")
    case True
    have "set (events s) \<subseteq> set (events (melodyNotes rnd sc bd (real i * bd * 8) 0
            (trigger Synth (chordAt ch (i mod length ch)) ''4n'' (real i * bd * 8) None s)))"
      using melodyNotes_events [of "trigger Synth (chordAt ch (i mod length ch)) ''4n'' (real i * bd * 8) None s" rnd sc bd "real i * bd * 8" 0]
      by (auto simp: trigger_def)
    with "1.IH" [OF True refl refl] show ?thesis
      by (subst melodyLoop.simps) (auto simp: True Let_def)
  next
    case False
    then show ?thesis by (subst melodyLoop.simps) simp
  qed
qed

lemma melodyLoop_step:
  "real i < real_of_int tb / 8 \<Longrightarrow>
   melodyLoop rnd sc ch bd tb i s =
     melodyLoop rnd sc ch bd tb (i + 1)
       (melodyNotes rnd sc bd (real i * bd * 8) 0
          (trigger Synth (chordAt ch (i mod length ch)) ''4n'' (real i * bd * 8) None s))"
  by (subst melodyLoop.simps) (simp add: Let_def)

lemma melodyLoop_last_note:
  "i \<le> k \<Longrightarrow> real k < real_of_int tb / 8 \<Longrightarrow>
   \<exists>e \<in> set (events (melodyLoop rnd sc ch bd tb i s)). isMelodyNote e \<and> ev_time e = real k * bd * 8 + 3 * bd * 2"
proof (induction rnd sc ch bd tb i s rule: melodyLoop.induct)
  case (1 rnd sc ch bd tb i s)
  from "1.prems" have lt: "real i < real_of_int tb / 8" by linarith
  note step = melodyLoop_step [OF lt, of rnd sc ch bd s]
  show ?case
  proof (cases "i = k")
    case True
    obtain e where e: "e \<in> set (events (melodyNotes rnd sc bd (real i * bd * 8) 0
            (trigger Synth (chordAt ch (i mod length ch)) ''4n'' (real i * bd * 8) None s)))"
          "isMelodyNote e" "ev_time e = real i * bd * 8 + 3 * bd * 2"
      using melodyNotes_last [of 0] by blast
    then have "e \<in> set (events (melodyLoop rnd sc ch bd tb i s))"
      unfolding step using melodyLoop_mono by blast
    with e True show ?thesis by blast
  next
    case False
    with "1.prems" have "i + 1 \<le> k" by simp
    from "1.IH" [OF lt refl refl this "1.prems"(2)] show ?thesis
      unfolding step .
  qed
qed


lemma hihatLoop_kicks:
  "filter (\<lambda>e. ev_inst e = Kick) (events (hihatLoop rnd bd tb i s)) = filter (\<lambda>e. ev_inst e = Kick) (events s)"
proof (induction rnd bd tb i s rule: hihatLoop.induct)
  case (1 rnd bd tb i s)
  show ?case
  proof (cases "int i < tb * 2")
    case True
    show ?thesis
      using True "1.IH" [OF True refl]
      by (subst hihatLoop.simps) (simp add: trigger_def Let_def)
  next
    case False
    then show ?thesis by (subst hihatLoop.simps) simp
  qed
qed

lemma bassLoop_kicks:
  "filter (\<lambda>e. ev_inst e = Kick) (events (bassLoop bn bd tb i s)) = filter (\<lambda>e. ev_inst e = Kick) (events s)"
proof (induction bn bd tb i s rule: bassLoop.induct)
  case (1 bn bd tb i s)
  show ?case
  proof (cases "real i < real_of_int tb / 4")
    case True
    show ?thesis
      using True "1.IH" [OF True refl refl]
      by (subst bassLoop.simps) (simp add: trigger_def Let_def)
  next
    case False
    then show ?thesis by (subst bassLoop.simps) simp
  qed
qed

lemma melodyNotes_kicks:
  "filter (\<lambda>e. ev_inst e = Kick) (events (melodyNotes rnd sc bd t j s)) = filter (\<lambda>e. ev_inst e = Kick) (events s)"
proof (induction rnd sc bd t j s rule: melodyNotes.induct)
  case (1 rnd sc bd t j s)
  show ?case
  proof (cases "j < 4")
    case True
    show ?thesis
      using "1.IH" [OF True refl refl refl]
      by (subst melodyNotes.simps) (simp add: True trigger_def Let_def)
  next
    case False
    then show ?thesis by (subst melodyNotes.simps) simp
  qed
qed

lemma melodyLoop_kicks:
  "filter (\<lambda>e. ev_inst e = Kick) (events (melodyLoop rnd sc ch bd tb i s)) = filter (\<lambda>e. ev_inst e = Kick) (events s)"
proof (induction rnd sc ch bd tb i s rule: melodyLoop.induct)
  case (1 rnd sc ch bd tb i s)
  show ?case
  proof (cases "real i < real_of_int tb / 8")
    case True
    show ?thesis
      using "1.IH" [OF True refl refl]
      unfolding melodyLoop_step [OF True]
      by (simp add: melodyNotes_kicks trigger_def)
  next
    case False
    then show ?thesis by (subst melodyLoop.simps) simp
  qed
qed

lemma kickEvent_inst: "ev_inst (kickEvent bd k) = Kick"
  by (simp add: kickEvent_def)

lemma schedule_kicks:
  "filter (\<lambda>e. ev_inst e = Kick) (events (schedule rnd template d)) =
     map (kickEvent (beatDuration (tempo template)))
       (filter (\<lambda>k. k mod 2 = 0) [0..<nat (totalBeats (tempo template) d)])"
  by (simp add: schedule_def Let_def melodyLoop_kicks bassLoop_kicks hihatLoop_kicks
      kickLoop_events filter_map o_def kickEvent_inst)

lemma evens_21: "filter (\<lambda>k. k mod 2 = 0) [0..<21] = map (\<lambda>k. 2 * k) [0..<11]"
  by code_simp

text \<open>
  Claim C4, as amended. For the genre electronic (128 BPM) and a duration of 10 seconds there
  are \<open>floor(10 / (60/128)) = 21\<close> beats, and the kick layer emits exactly 11 events, the
  ceiling of \<open>21 / 2\<close>: one on each even beat \<open>0, 2, ..., 20\<close>, at the beat's time.
\<close>

theorem pulse_layer_electronic_10s:
  "totalBeats (tempo electronic) 10 = 21 \<and>
   filter (\<lambda>e. ev_inst e = Kick) (events (schedule rnd electronic 10)) =
     map (\<lambda>k. kickEvent (beatDuration 128) (2 * k)) [0..<11] \<and>
   length (filter (\<lambda>e. ev_inst e = Kick) (events (schedule rnd electronic 10))) = 11"
proof -
  have tb: "totalBeats (tempo electronic) 10 = 21"
    by (simp add: totalBeats_def beatDuration_def electronic_def)
  have te: "tempo electronic = 128" by (simp add: electronic_def)
  have tb': "totalBeats 128 10 = 21"
    by (simp add: totalBeats_def beatDuration_def)
  show ?thesis
    by (simp add: schedule_kicks evens_21 te tb' o_def)
qed

text \<open>
  Claim C4, as stated, fails: the kick layer of that scenario has 11 events, which is neither
  \<open>floor(10 / (60/128)) / 2 = 10.5\<close> nor its integer part 10.
\<close>

theorem pulse_count_not_half_of_beats:
  "real (length (filter (\<lambda>e. ev_inst e = Kick) (events (schedule (\<lambda>n. 0) electronic 10))))
     \<noteq> real_of_int \<lfloor>10 / (60 / 128 :: real)\<rfloor> / 2 \<and>
   int (length (filter (\<lambda>e. ev_inst e = Kick) (events (schedule (\<lambda>n. 0) electronic 10))))
     \<noteq> \<lfloor>10 / (60 / 128 :: real)\<rfloor> div 2"
proof -
  have tb: "totalBeats (tempo electronic) 10 = 21"
    by (simp add: totalBeats_def beatDuration_def electronic_def)
  have "length (filter (\<lambda>e. ev_inst e = Kick) (events (schedule (\<lambda>n. 0) electronic 10))) = 11"
    by (simp add: schedule_kicks tb evens_21)
  then show ?thesis by simp
qed

lemma events_trigger:
  "set (events (trigger i p l t v s)) =
     insert \<lparr> ev_inst = i, ev_pitch = p, ev_len = l, ev_time = t, ev_velocity = v \<rparr> (set (events s))"
  by (simp add: trigger_def)

lemma beat_within:
  assumes "0 < bd" and "real i * c < real_of_int tb" and "1 \<le> c"
  shows "0 \<le> real i * bd * c \<and> real i * bd * c < real_of_int tb * bd"
proof -
  have "real i * c * bd < real_of_int tb * bd"
    using assms(1,2) by (simp only: mult_less_cancel_right_pos)
  moreover have "0 \<le> real i * bd * c" using assms(1,3) by simp
  ultimately show ?thesis by (simp add: mult.commute mult.left_commute)
qed

lemma kickLoop_within:
  assumes "0 < bd" and "\<forall>e \<in> set (events s). withinBeats bd tb e"
  shows "\<forall>e \<in> set (events (kickLoop bd tb i s)). withinBeats bd tb e"
  using assms
proof (induction bd tb i s rule: kickLoop.induct)
  case (1 bd tb i s)
  show ?case
  proof (cases "int i < tb")
    case True
    then have "real i * 1 < real_of_int tb" by simp
    from beat_within [OF "1.prems"(1) this] "1.prems"(2)
    have "\<forall>e \<in> set (events (if i mod 2 = 0 then trigger Kick (Note ''C1'') ''8n'' (real i * bd) None s else s)).
        withinBeats bd tb e"
      by (simp add: events_trigger withinBeats_def)
    from "1.IH" [OF True refl "1.prems"(1) this] True show ?thesis
      by (subst kickLoop.simps) (simp add: Let_def)
  next
    case False
    with "1.prems" show ?thesis by (subst kickLoop.simps) simp
  qed
qed

lemma hihatLoop_within:
  assumes "0 < bd" and "\<forall>e \<in> set (events s). withinBeats bd tb e"
  shows "\<forall>e \<in> set (events (hihatLoop rnd bd tb i s)). withinBeats bd tb e"
  using assms
proof (induction rnd bd tb i s rule: hihatLoop.induct)
  case (1 rnd bd tb i s)
  show ?case
  proof (cases "int i < tb * 2")
    case True
    then have "real_of_int (int i) < real_of_int (tb * 2)" by (simp only: of_int_less_iff)
    then have "real i * (1 / 2) < real_of_int tb" by simp
    moreover have "0 \<le> real i * bd / 2" using "1.prems"(1) by simp
    ultimately have "0 \<le> real i * bd / 2 \<and> real i * bd / 2 < real_of_int tb * bd"
      using "1.prems"(1) mult_less_cancel_right_pos [of "real i * (1 / 2)" bd "real_of_int tb"]
      by simp
    with "1.prems"(2)
    have "\<forall>e \<in> set (events ((trigger Hihat Unpitched ''16n'' (real i * bd / 2)
              (Some (rnd (draws s) * 0.3 + 0.1)) s) \<lparr> draws := draws s + 1 \<rparr>)).
        withinBeats bd tb e"
      by (simp add: trigger_def withinBeats_def)
    from "1.IH" [OF True refl "1.prems"(1) this] True show ?thesis
      by (subst hihatLoop.simps) (simp add: Let_def)
  next
    case False
    with "1.prems" show ?thesis by (subst hihatLoop.simps) simp
  qed
qed

lemma bassLoop_within:
  assumes "0 < bd" and "\<forall>e \<in> set (events s). withinBeats bd tb e"
  shows "\<forall>e \<in> set (events (bassLoop bn bd tb i s)). withinBeats bd tb e"
  using assms
proof (induction bn bd tb i s rule: bassLoop.induct)
  case (1 bn bd tb i s)
  show ?case
  proof (cases "real i < real_of_int tb / 4")
    case True
    then have "real i * 4 < real_of_int tb" by simp
    from beat_within [OF "1.prems"(1) this] "1.prems"(2)
    have "\<forall>e \<in> set (events (trigger Bass (noteAt bn (i mod length bn)) ''2n'' (real i * bd * 4) None s)).
        withinBeats bd tb e"
      by (simp add: events_trigger withinBeats_def)
    from "1.IH" [OF True refl refl "1.prems"(1) this] True show ?thesis
      by (subst bassLoop.simps) (simp add: Let_def)
  next
    case False
    with "1.prems" show ?thesis by (subst bassLoop.simps) simp
  qed
qed

lemma melodyNotes_within:
  assumes "\<forall>e \<in> set (events s). withinBeats bd tb e"
  shows "\<forall>e \<in> set (events (melodyNotes rnd sc bd t j s)). withinBeats bd tb e"
  using assms
proof (induction rnd sc bd t j s rule: melodyNotes.induct)
  case (1 rnd sc bd t j s)
  show ?case
  proof (cases "j < 4")
    case True
    from "1.prems"
    have "\<forall>e \<in> set (events ((trigger Synth (noteAt sc (nat \<lfloor>rnd (draws s) * real (length sc)\<rfloor>)) ''8n''
              (t + real j * bd * 2) (Some (rnd (draws s + 1) * 0.3 + 0.3)) s) \<lparr> draws := draws s + 2 \<rparr>)).
        withinBeats bd tb e"
      by (simp add: trigger_def withinBeats_def isMelodyNote_def)
    from "1.IH" [OF True refl refl refl this] True show ?thesis
      by (subst melodyNotes.simps) (simp add: Let_def)
  next
    case False
    with "1.prems" show ?thesis by (subst melodyNotes.simps) simp
  qed
qed

lemma melodyLoop_within:
  assumes "0 < bd" and "\<forall>e \<in> set (events s). withinBeats bd tb e"
  shows "\<forall>e \<in> set (events (melodyLoop rnd sc ch bd tb i s)). withinBeats bd tb e"
  using assms
proof (induction rnd sc ch bd tb i s rule: melodyLoop.induct)
  case (1 rnd sc ch bd tb i s)
  show ?case
  proof (cases "real i < real_of_int tb / 8")
    case True
    then have "real i * 8 < real_of_int tb" by simp
    from beat_within [OF "1.prems"(1) this] "1.prems"(2)
    have "\<forall>e \<in> set (events (trigger Synth (chordAt ch (i mod length ch)) ''4n'' (real i * bd * 8) None s)).
        withinBeats bd tb e"
      by (simp add: events_trigger withinBeats_def)
    then have "\<forall>e \<in> set (events (melodyNotes rnd sc bd (real i * bd * 8) 0
        (trigger Synth (chordAt ch (i mod length ch)) ''4n'' (real i * bd * 8) None s))).
        withinBeats bd tb e"
      by (rule melodyNotes_within)
    from "1.IH" [OF True refl refl "1.prems"(1) this] show ?thesis
      unfolding melodyLoop_step [OF True] .
  next
    case False
    with "1.prems" show ?thesis by (subst melodyLoop.simps) simp
  qed
qed

lemma totalBeats_within:
  assumes "0 < bpm"
  shows "real_of_int (totalBeats bpm d) * beatDuration bpm \<le> real_of_int d"
proof -
  have bd: "0 < beatDuration bpm" using assms by (simp add: beatDuration_def)
  have "real_of_int (totalBeats bpm d) \<le> real_of_int d / beatDuration bpm"
    unfolding totalBeats_def by (rule of_int_floor_le)
  then show ?thesis using bd by (simp add: pos_le_divide_eq)
qed

text \<open>
  Every event of the schedule that is not a melody note (every kick, hi-hat, bass and chord
  event) has its time in \<open>[0, d)\<close>, for every positive tempo.
\<close>

lemma schedule_other_layers_in_range:
  assumes "0 < tempo t" and "e \<in> set (events (schedule rnd t d))" and "\<not> isMelodyNote e"
  shows "0 \<le> ev_time e \<and> ev_time e < real_of_int d"
proof -
  let ?bd = "beatDuration (tempo t)" and ?tb = "totalBeats (tempo t) d"
  have bd: "0 < ?bd" using assms(1) by (simp add: beatDuration_def)
  have "\<forall>e \<in> set (events \<lparr> events = [], draws = 0 \<rparr>). withinBeats ?bd ?tb e" by simp
  then have "\<forall>e \<in> set (events (kickLoop ?bd ?tb 0 \<lparr> events = [], draws = 0 \<rparr>)). withinBeats ?bd ?tb e"
    by (rule kickLoop_within [OF bd])
  then have "\<forall>e \<in> set (events (hihatLoop rnd ?bd ?tb 0 (kickLoop ?bd ?tb 0 \<lparr> events = [], draws = 0 \<rparr>))).
      withinBeats ?bd ?tb e"
    by (rule hihatLoop_within [OF bd])
  then have "\<forall>e \<in> set (events (bassLoop (bassNotes t) ?bd ?tb 0
      (hihatLoop rnd ?bd ?tb 0 (kickLoop ?bd ?tb 0 \<lparr> events = [], draws = 0 \<rparr>)))). withinBeats ?bd ?tb e"
    by (rule bassLoop_within [OF bd])
  then have "\<forall>e \<in> set (events (schedule rnd t d)). withinBeats ?bd ?tb e"
    unfolding schedule_def Let_def by (rule melodyLoop_within [OF bd])
  with assms(2,3) have "0 \<le> ev_time e \<and> ev_time e < real_of_int ?tb * ?bd"
    by (auto simp: withinBeats_def)
  with totalBeats_within [OF assms(1), of d] show ?thesis by simp
qed

text \<open>
  Claim C1 says that every time stamp of \<open>schedule(template, d)\<close> is below \<open>d\<close>, the four
  melody notes of a cycle included, for each genre at both ends of its duration range. The
  melody loop starts a cycle whenever its first beat is below the beat count and then places
  notes 2, 4 and 6 beats later without looking at the count again: hiphop at its longest
  duration (300 s), techno at its shortest (180 s) and electronic at the 10 seconds of the
  test script each get a melody note after the end.
\<close>

theorem melody_notes_overrun_duration:
  "(\<exists>e \<in> set (events (schedule rnd hiphop (max_seconds (duration hiphop)))).
      isMelodyNote e \<and> ev_time e = 302 + 2 / 3 \<and>
      real_of_int (max_seconds (duration hiphop)) < ev_time e) \<and>
   (\<exists>e \<in> set (events (schedule rnd techno (min_seconds (duration techno)))).
      isMelodyNote e \<and> ev_time e = 180 + 6 / 7 \<and>
      real_of_int (min_seconds (duration techno)) < ev_time e) \<and>
   (\<exists>e \<in> set (events (schedule rnd electronic 10)).
      isMelodyNote e \<and> ev_time e = 10 + 5 / 16 \<and> 10 < ev_time e)"
proof -
  have "\<exists>e \<in> set (events (schedule rnd hiphop 300)). isMelodyNote e \<and> ev_time e = 302 + 2/3"
    using melodyLoop_last_note [of 0 56 450 rnd "scale hiphop" "chords hiphop" "2/3"]
    by (simp add: schedule_def Let_def totalBeats_def beatDuration_def hiphop_def)
  moreover
  have "\<exists>e \<in> set (events (schedule rnd techno 180)). isMelodyNote e \<and> ev_time e = 180 + 6/7"
    using melodyLoop_last_note [of 0 52 420 rnd "scale techno" "chords techno" "3/7"]
    by (simp add: schedule_def Let_def totalBeats_def beatDuration_def techno_def)
  moreover
  have "\<exists>e \<in> set (events (schedule rnd electronic 10)). isMelodyNote e \<and> ev_time e = 10 + 5/16"
    using melodyLoop_last_note [of 0 2 21 rnd "scale electronic" "chords electronic" "15/32"]
    by (simp add: schedule_def Let_def totalBeats_def beatDuration_def electronic_def)
  ultimately show ?thesis
    by (force simp: hiphop_def techno_def)
qed

section \<open>The duration and the template that generateMusic picks\<close>





























section \<open>Unregistered genre names\<close>

text \<open>
  Claim C5, as amended. For every genre name that is neither a key of the registry nor the
  name of a member that an object literal inherits from \<open>Object.prototype\<close>, both lookups
  fall back to electronic: the visual lookup yields electronic's style and the template
  lookup yields electronic's template. The fallback is symmetric.
\<close>

theorem unknown_genre_falls_back_in_both_lookups:
  assumes "genre \<notin> set (map fst genreTemplates)" and "genre \<notin> set objectPrototypeKeys"
  shows "getVisualStyle genre = getProperty styles ''electronic'' \<and>
         getVisualStyle genre =
           Own \<lparr> colors = [''#00ffff'', ''#ff00ff'', ''#ffff00'', ''#00ff00''],
                 backgroundColor = ''#000000'', shapeType = ''geometric'', particleCount = 50,
                 waveAmplitude = 100 \<rparr> \<and>
         templateFor genre = getProperty genreTemplates ''electronic'' \<and>
         templateFor genre = Own electronic"
proof -
  from assms(1) have ne: "genre \<noteq> ''electronic''" "genre \<noteq> ''ambient''" "genre \<noteq> ''hiphop''"
    "genre \<noteq> ''pop''" "genre \<noteq> ''techno''"
    by (auto simp: genreTemplates_def)
  have s: "getProperty styles genre = Absent"
    using ne assms(2) by (simp add: getProperty_def styles_def)
  have t: "getProperty genreTemplates genre = Absent"
    using ne assms(2) by (simp add: getProperty_def genreTemplates_def)
  show ?thesis
    by (simp add: getVisualStyle_def templateFor_def s t orElse_def)
       (simp add: getProperty_def styles_def genreTemplates_def)
qed

text \<open>Claim C5, witness: the unregistered name \<open>jazz\<close>.\<close>

theorem unknown_genre_falls_back_in_both_lookups_witness:
  "''jazz'' \<notin> set (map fst genreTemplates) \<and> ''jazz'' \<notin> set objectPrototypeKeys \<and>
   getVisualStyle ''jazz'' = getProperty styles ''electronic'' \<and>
   templateFor ''jazz'' = Own electronic"
proof -
  have a: "''jazz'' \<notin> set (map fst genreTemplates)" by (simp add: genreTemplates_def)
  have b: "''jazz'' \<notin> set objectPrototypeKeys" by (simp add: objectPrototypeKeys_def)
  from unknown_genre_falls_back_in_both_lookups [OF a b] a b show ?thesis by blast
qed

text \<open>
  Claim C5, as stated, fails twice: the template lookup of the unregistered name \<open>jazz\<close>
  does fall back to electronic, and the visual lookup of the unregistered name
  \<open>constructor\<close> does not: it finds the member inherited from \<open>Object.prototype\<close>.
\<close>

theorem fallback_is_not_asymmetric:
  "''jazz'' \<notin> set (map fst genreTemplates) \<and> templateFor ''jazz'' = Own electronic \<and>
   ''constructor'' \<notin> set (map fst genreTemplates) \<and> getVisualStyle ''constructor'' = Inherited"
  by (simp add: genreTemplates_def templateFor_def getVisualStyle_def getProperty_def
      orElse_def styles_def objectPrototypeKeys_def)

section \<open>The frames\<close>

lemma forLoop_foldl: "forLoop i n body s = foldl (\<lambda>s k. body k s) s [i..<n]"
proof (induction i n body s rule: forLoop.induct)
  case (1 i n body s)
  show ?case
  proof (cases "i < n")
    case True
    then have "[i..<n] = i # [i + 1..<n]" by (simp add: upt_conv_Cons)
    with True "1.IH" [OF True] show ?thesis
      by (subst forLoop.simps) simp
  next
    case False
    then show ?thesis by (subst forLoop.simps) simp
  qed
qed

lemma foldl_append_each: "foldl (\<lambda>c k. c @ f k) ctx ks = ctx @ concat (map f ks)"
  by (induction ks arbitrary: ctx) simp_all

lemma forLoop_append: "forLoop i n (\<lambda>k c. c @ f k) ctx = ctx @ concat (map f [i..<n])"
  by (simp add: forLoop_foldl foldl_append_each)

lemma forLoopIO_writes:
  assumes "\<And>k w. body k w = (Inr (), writeFileSync (fst (f k)) (snd (f k)) w)"
  shows "forLoopIO i n body w = (Inr (), withFiles (rev (map f [i..<nat n])) w)"
  using assms
proof (induction i n body w rule: forLoopIO.induct)
  case (1 i n body w)
  note body = "1.prems"
  have beq: "body = (\<lambda>k w. (Inr (), writeFileSync (fst (f k)) (snd (f k)) w))"
    by (intro ext) (rule body)
  show ?case
  proof (cases "int i < n")
    case True
    then have up: "[i..<nat n] = i # [i + 1..<nat n]" by (simp add: upt_conv_Cons)
    have "forLoopIO i n body w = forLoopIO (i + 1) n body (writeFileSync (fst (f i)) (snd (f i)) w)"
      using True by (subst forLoopIO.simps) (simp add: body)
    also have "\<dots> = (Inr (), withFiles (rev (map f [i + 1..<nat n])) (writeFileSync (fst (f i)) (snd (f i)) w))"
      using "1.IH" [OF True, of "Inr ()" "writeFileSync (fst (f i)) (snd (f i)) w" "()"] body
      unfolding beq by simp
    also have "\<dots> = (Inr (), withFiles (rev (map f [i..<nat n])) w)"
      by (simp add: up withFiles_def writeFileSync_def)
    finally show ?thesis .
  next
    case False
    then show ?thesis by (subst forLoopIO.simps) (simp add: withFiles_def)
  qed
qed

lemma generateVisuals_run:
  assumes "env_fault e = None" and "getVisualStyle (md_genre md) = Own st"
  shows "generateVisuals e md dir w =
    (Inr \<lparr> frameCount = md_duration md * 30, vm_fps = 30, vm_width = 1920, vm_height = 1080,
           vm_framesDir = dir \<rparr>,
     withFiles (rev (map (mainFrameFile (md_tempo md) st dir) [0..<nat (md_duration md * 30)]))
       (ensureDir dir w))"
proof -
  have tf: "\<lfloor>real_of_int (md_duration md) * fps\<rfloor> = md_duration md * 30"
  proof -
    have "real_of_int (md_duration md) * fps = real_of_int (md_duration md * 30)"
      by (simp add: fps_def)
    then show ?thesis by (simp only: floor_of_int)
  qed
  have loop: "forLoopIO 0 (md_duration md * 30)
      (\<lambda>frameNum. generateFrame e frameNum (real frameNum / fps * (md_tempo md / 60))
         (real frameNum / fps) (md_duration md) st dir) w1
    = (Inr (), withFiles (rev (map (mainFrameFile (md_tempo md) st dir) [0..<nat (md_duration md * 30)])) w1)"
    for w1
    by (rule forLoopIO_writes) (simp add: generateFrame_def assms(1) mainFrameFile_def Let_def)
  show ?thesis
    unfolding generateVisuals_def Let_def tf assms(2) property.case andThen_def loop
    by (simp add: fps_def width_def height_def)
qed

lemma generateIntro_run:
  assumes "env_fault e = None"
  shows "generateIntro e genre dir 3 w =
    (Inr \<lparr> frameCount = 90, vm_fps = 30, vm_width = 1920, vm_height = 1080, vm_framesDir = dir \<rparr>,
     withFiles (rev (map (introFrameFile 90 genre dir) [0..<90])) (ensureDir dir w))"
proof -
  have tf: "\<lfloor>3 * fps\<rfloor> = 90" by (simp add: fps_def)
  have loop: "forLoopIO 0 90
      (\<lambda>frameNum. generateIntroFrame e frameNum (real frameNum / real_of_int 90) genre dir) w1
    = (Inr (), withFiles (rev (map (introFrameFile 90 genre dir) [0..<nat 90])) w1)" for w1
    by (rule forLoopIO_writes) (simp add: generateIntroFrame_def assms(1) introFrameFile_def Let_def)
  show ?thesis
    unfolding generateIntro_def Let_def tf andThen_def loop
    by (simp add: fps_def width_def height_def)
qed

lemma generateOutro_run:
  assumes "env_fault e = None"
  shows "generateOutro e genre dir 3 w =
    (Inr \<lparr> frameCount = 90, vm_fps = 30, vm_width = 1920, vm_height = 1080, vm_framesDir = dir \<rparr>,
     withFiles (rev (map (outroFrameFile 90 genre dir) [0..<90])) (ensureDir dir w))"
proof -
  have tf: "\<lfloor>3 * fps\<rfloor> = 90" by (simp add: fps_def)
  have loop: "forLoopIO 0 90
      (\<lambda>frameNum. generateOutroFrame e frameNum (real frameNum / real_of_int 90) genre dir) w1
    = (Inr (), withFiles (rev (map (outroFrameFile 90 genre dir) [0..<nat 90])) w1)" for w1
    by (rule forLoopIO_writes) (simp add: generateOutroFrame_def assms(1) outroFrameFile_def Let_def)
  show ?thesis
    unfolding generateOutro_def Let_def tf andThen_def loop
    by (simp add: fps_def width_def height_def)
qed

lemma forLoop_prefix:
  assumes "\<And>k c. prefix c (body k c)"
  shows "prefix s (forLoop i n body s)"
  using assms
proof (induction i n body s rule: forLoop.induct)
  case (1 i n body s)
  show ?case
  proof (cases "i < n")
    case True
    have "prefix s (body i s)" by (rule "1.prems")
    also have "prefix \<dots> (forLoop (i + 1) n body (body i s))"
      by (rule "1.IH" [OF True "1.prems"])
    also have "\<dots> = forLoop i n body s"
      using True by (subst (2) forLoop.simps) simp
    finally show ?thesis .
  next
    case False
    then show ?thesis by (subst forLoop.simps) simp
  qed
qed

lemma drawVisualizer_bars:
  "drawVisualizer beat (spec_intensity beat) st ctx =
     ctx @ [Save] @ concat (map (barCommands st (spec_barHeight beat st)) [0..<64]) @ [Restore]"
proof -
  have "(\<lambda>i. [FillStyle (element (colors st) (nat \<lfloor>real i / real 64 * real (length (colors st))\<rfloor>)),
              FillRect (real i * (width / real 64))
                (height / 2 - (sin ((beat + real i / real 64 * 4) * pi) * 0.5 + 0.5)
                   * waveAmplitude st * spec_intensity beat * 2)
                (width / real 64 - 2)
                ((sin ((beat + real i / real 64 * 4) * pi) * 0.5 + 0.5)
                   * waveAmplitude st * spec_intensity beat * 2 * 2)])
        = barCommands st (spec_barHeight beat st)"
    by (intro ext) (simp add: barCommands_def spec_barHeight_def spec_phase_def)
  then show ?thesis
    unfolding drawVisualizer_def Let_def forLoop_append by simp
qed

lemma drawParticles_prefix: "prefix ctx (drawParticles t beat st ctx)"
  by (simp add: drawParticles_def forLoop_append Let_def)

lemma drawGeometricPatterns_prefix: "prefix ctx (drawGeometricPatterns beat st ctx)"
proof -
  have gen: "prefix ctx (forLoop 0 3 body (ctx @ [Save, Translate (width / 2) (height / 2)]) @ [Restore])"
    if "\<And>k c. prefix c (body k c)" for body :: "nat \<Rightarrow> cmd list \<Rightarrow> cmd list"
  proof -
    have "prefix ctx (ctx @ [Save, Translate (width / 2) (height / 2)])" by simp
    also have "prefix \<dots> (forLoop 0 3 body (ctx @ [Save, Translate (width / 2) (height / 2)]))"
      using that by (rule forLoop_prefix)
    finally show ?thesis by (simp add: prefix_prefix)
  qed
  show ?thesis
    unfolding drawGeometricPatterns_def Let_def
    by (rule gen) (simp add: forLoop_append)
qed

text \<open>
  Claim C7. The image written for main frame \<open>k\<close> at tempo \<open>bpm\<close> starts with the background
  and then the 64 bars, bar \<open>i\<close> drawn with the height
  \<open>(sin(phase * pi) * 0.5 + 0.5) * waveAmplitude * intensity\<close> for
  \<open>beat = (k / 30) * (bpm / 60)\<close>, \<open>phase = beat + (i / 64) * 4\<close> and
  \<open>intensity = sin(beat * pi) * 0.5 + 0.5\<close>; frame 0 has beat 0, intensity 0.5 and bar 0 at
  phase 0.
\<close>

theorem visualizer_bar_heights:
  "(\<exists>canvas rest. snd (mainFrameFile bpm st dir k) = Image canvas \<and>
      canvas = [FillStyle (Some (backgroundColor st)), FillRect 0 0 width height, Save]
        @ concat (map (barCommands st (spec_barHeight (spec_beat k fps bpm) st)) [0..<64])
        @ [Restore] @ rest) \<and>
   spec_beat 0 fps bpm = 0 \<and> spec_intensity (spec_beat 0 fps bpm) = 1 / 2 \<and>
   spec_phase (spec_beat 0 fps bpm) 0 = 0"
proof -
  let ?beat = "real k / fps * (bpm / 60)"
  have beat: "?beat = spec_beat k fps bpm" by (simp add: spec_beat_def)
  have int: "sin (?beat * pi) * 0.5 + 0.5 = spec_intensity (spec_beat k fps bpm)"
    unfolding beat by (simp add: spec_intensity_def)
  let ?vis = "drawVisualizer (spec_beat k fps bpm) (spec_intensity (spec_beat k fps bpm)) st
      [FillStyle (Some (backgroundColor st)), FillRect 0 0 width height]"
  have "prefix ?vis (drawParticles (real k / fps) (spec_beat k fps bpm) st ?vis)"
    by (rule drawParticles_prefix)
  also have "prefix \<dots> (drawGeometricPatterns (spec_beat k fps bpm) st
      (drawParticles (real k / fps) (spec_beat k fps bpm) st ?vis))"
    by (rule drawGeometricPatterns_prefix)
  finally have "prefix ?vis (frameCanvas ?beat (real k / fps) st)"
    unfolding frameCanvas_def Let_def int unfolding beat .
  then obtain rest where "frameCanvas ?beat (real k / fps) st = ?vis @ rest"
    by (auto simp: prefix_def)
  then have "snd (mainFrameFile bpm st dir k) = Image (?vis @ rest)"
    by (simp add: mainFrameFile_def)
  then have "\<exists>canvas rest. snd (mainFrameFile bpm st dir k) = Image canvas \<and>
      canvas = [FillStyle (Some (backgroundColor st)), FillRect 0 0 width height, Save]
        @ concat (map (barCommands st (spec_barHeight (spec_beat k fps bpm) st)) [0..<64])
        @ [Restore] @ rest"
    by (simp add: drawVisualizer_bars)
  moreover have "spec_beat 0 fps bpm = 0" by (simp add: spec_beat_def)
  ultimately show ?thesis
    by (simp add: spec_intensity_def spec_phase_def)
qed

lemma fade_monotone:
  fixes x y :: real
  assumes "x \<le> y"
  shows "min (x * 2) 1 \<le> min (y * 2) 1" and "max (1 - y * 2) 0 \<le> max (1 - x * 2) 0"
  using assms by (simp_all add: min_def max_def)

lemma fade_clamped:
  fixes x :: real
  assumes "1 / 2 \<le> x"
  shows "min (x * 2) 1 = 1" and "max (1 - x * 2) 0 = 0"
  using assms by (simp_all add: min_def max_def)

text \<open>
  Claim C8. Frame \<open>k\<close> of \<open>n\<close> of the intro is drawn with opacity \<open>min(progress * 2, 1)\<close> and
  of the outro with \<open>max(1 - progress * 2, 0)\<close>, for \<open>progress = k / n\<close>; the former does not
  decrease and the latter does not increase with \<open>k\<close>, and from \<open>progress = 0.5\<close> on they
  are 1 and 0.
\<close>

theorem edge_card_fade:
  assumes "0 < n" and "k \<le> k'"
  shows "opacities (snd (introFrameFile n genre dir k)) = [min (real k / real_of_int n * 2) 1] \<and>
         opacities (snd (outroFrameFile n genre dir k)) = [max (1 - real k / real_of_int n * 2) 0] \<and>
         min (real k / real_of_int n * 2) 1 \<le> min (real k' / real_of_int n * 2) 1 \<and>
         max (1 - real k' / real_of_int n * 2) 0 \<le> max (1 - real k / real_of_int n * 2) 0 \<and>
         (1 / 2 \<le> real k / real_of_int n \<longrightarrow>
            min (real k / real_of_int n * 2) 1 = 1 \<and> max (1 - real k / real_of_int n * 2) 0 = 0)"
proof -
  have pos: "0 < real_of_int n" using assms(1) by simp
  have le: "real k / real_of_int n \<le> real k' / real_of_int n"
    using assms(2) pos by (simp add: divide_right_mono)
  have a: "opacities (snd (introFrameFile n genre dir k)) = [min (real k / real_of_int n * 2) 1]"
    by (simp add: opacities_def introFrameFile_def introCanvas_def alphas_def Let_def)
  have b: "opacities (snd (outroFrameFile n genre dir k)) = [max (1 - real k / real_of_int n * 2) 0]"
    by (simp add: opacities_def outroFrameFile_def outroCanvas_def alphas_def Let_def)
  from a b fade_monotone [OF le] fade_clamped [of "real k / real_of_int n"]
  show ?thesis by blast
qed

text \<open>Claim C8, witness: frames 30 and 45 of 90.\<close>

theorem edge_card_fade_witness:
  "(0::int) < 90 \<and> (30::nat) \<le> 45 \<and>
   opacities (snd (introFrameFile 90 ''pop'' ''/i'' 30)) = [2 / 3] \<and>
   opacities (snd (outroFrameFile 90 ''pop'' ''/o'' 30)) = [1 / 3] \<and>
   opacities (snd (introFrameFile 90 ''pop'' ''/i'' 45)) = [1] \<and>
   opacities (snd (outroFrameFile 90 ''pop'' ''/o'' 45)) = [0]"
proof -
  have a: "(0::int) < 90" and b: "(30::nat) \<le> 45" and c: "(45::nat) \<le> 45" by simp_all
  from edge_card_fade [OF a b, of "''pop''" "''/i''"] edge_card_fade [OF a b, of "''pop''" "''/o''"]
    edge_card_fade [OF a c, of "''pop''" "''/i''"] edge_card_fade [OF a c, of "''pop''" "''/o''"]
  show ?thesis by simp
qed

lemma draws_main_writes:
  "draws_main (foldl (\<lambda>w' d. if existsSync w' d then w' else writeFileSync d Directory w') w ds) = draws_main w"
  by (induction ds arbitrary: w) (simp_all add: writeFileSync_def)

lemma draws_main_ensureDir: "draws_main (ensureDir dir w) = draws_main w"
  by (cases "existsSync w dir")
     (simp_all add: ensureDir_def mkdirSync_def draws_main_writes del: foldl_append)

lemma draws_main_withFiles: "draws_main (withFiles fs w) = draws_main w"
  by (simp add: withFiles_def)

lemma files_withFiles: "files (withFiles fs w) = fs @ files w"
  by (simp add: withFiles_def)

text \<open>
  Claim C9. When no collaborator fails, \<open>generateVisuals\<close> reports \<open>duration * 30\<close> frames
  and writes exactly the frames numbered from 0 up to, not including, \<open>duration * 30\<close>, the
  latest on top; the intro and the outro of 3 seconds have 90 frames each, numbered from 0
  to 89, and last \<open>frameCount / fps = 3\<close> seconds.
\<close>

theorem segment_frame_counts:
  assumes "env_fault e = None" and "getVisualStyle (md_genre md) = Own st"
  shows "generateVisuals e md dir w =
           (Inr \<lparr> frameCount = md_duration md * 30, vm_fps = 30, vm_width = 1920,
                  vm_height = 1080, vm_framesDir = dir \<rparr>,
            withFiles (rev (map (mainFrameFile (md_tempo md) st dir) [0..<nat (md_duration md * 30)]))
              (ensureDir dir w)) \<and>
         generateIntro e genre dir 3 w =
           (Inr \<lparr> frameCount = 90, vm_fps = 30, vm_width = 1920, vm_height = 1080,
                  vm_framesDir = dir \<rparr>,
            withFiles (rev (map (introFrameFile 90 genre dir) [0..<90])) (ensureDir dir w)) \<and>
         generateOutro e genre dir 3 w =
           (Inr \<lparr> frameCount = 90, vm_fps = 30, vm_width = 1920, vm_height = 1080,
                  vm_framesDir = dir \<rparr>,
            withFiles (rev (map (outroFrameFile 90 genre dir) [0..<90])) (ensureDir dir w)) \<and>
         segmentDuration \<lparr> frameCount = 90, vm_fps = 30, vm_width = 1920, vm_height = 1080,
                  vm_framesDir = dir \<rparr> = 3"
  using generateVisuals_run [OF assms] generateIntro_run [OF assms(1)] generateOutro_run [OF assms(1)]
  by (simp add: segmentDuration_def)

text \<open>Claim C9, witness: 10 seconds of electronic give 300 frames, the last one numbered 299.\<close>

theorem segment_frame_counts_witness:
  "\<exists>vm w'.
     generateVisuals
       \<lparr> env_dirname = ''/app'', env_now = 0, env_random = (\<lambda>n. 0), env_script_random = (\<lambda>n. 0),
         env_fault = None, env_partial = False \<rparr>
       \<lparr> md_tempo = 128, md_duration = 10, md_genre = ''electronic'', md_path = ''/a.wav'' \<rparr>
       ''/f'' \<lparr> files = [(''/f'', Directory)], draws_main = 0 \<rparr> = (Inr vm, w') \<and>
     frameCount vm = 300 \<and> length (files w') = 301 \<and>
     hd (files w') = (join [''/f'', frameName ''frame'' 299],
                     Image (frameCanvas (299 / 30 * (128 / 60)) (299 / 30)
                       \<lparr> colors = [''#00ffff'', ''#ff00ff'', ''#ffff00'', ''#00ff00''],
                         backgroundColor = ''#000000'', shapeType = ''geometric'',
                         particleCount = 50, waveAmplitude = 100 \<rparr>))"
proof -
  let ?e = "\<lparr> env_dirname = ''/app'', env_now = 0, env_random = (\<lambda>n. 0 :: real),
         env_script_random = (\<lambda>n. 0 :: real), env_fault = None, env_partial = False \<rparr>"
  let ?md = "\<lparr> md_tempo = 128, md_duration = 10, md_genre = ''electronic'', md_path = ''/a.wav'' \<rparr>"
  let ?st = "\<lparr> colors = [''#00ffff'', ''#ff00ff'', ''#ffff00'', ''#00ff00''],
                         backgroundColor = ''#000000'', shapeType = ''geometric'',
                         particleCount = 50, waveAmplitude = 100 \<rparr>"
  have f: "env_fault ?e = None" by simp
  have s: "getVisualStyle (md_genre ?md) = Own ?st"
    by (simp add: getVisualStyle_def getProperty_def orElse_def styles_def)
  have up: "[0..<300] = [0..<299] @ [299]"
    using upt_Suc_append [of 0 299] by simp
  have en: "ensureDir ''/f'' \<lparr> files = [(''/f'', Directory)], draws_main = 0 \<rparr>
      = \<lparr> files = [(''/f'', Directory)], draws_main = 0 \<rparr>"
    by (simp add: ensureDir_def existsSync_def)
  from segment_frame_counts [OF f s, of "''/f''" "\<lparr> files = [(''/f'', Directory)], draws_main = 0 \<rparr>"]
  have "generateVisuals ?e ?md ''/f'' \<lparr> files = [(''/f'', Directory)], draws_main = 0 \<rparr>
    = (Inr \<lparr> frameCount = 300, vm_fps = 30, vm_width = 1920, vm_height = 1080, vm_framesDir = ''/f'' \<rparr>,
       withFiles (rev (map (mainFrameFile 128 ?st ''/f'') [0..<300]))
         \<lparr> files = [(''/f'', Directory)], draws_main = 0 \<rparr>)"
    by (simp add: en)
  moreover have "length (files (withFiles (rev (map (mainFrameFile 128 ?st ''/f'') [0..<300]))
         \<lparr> files = [(''/f'', Directory)], draws_main = 0 \<rparr>)) = 301"
    by (simp add: files_withFiles)
  moreover have "hd (files (withFiles (rev (map (mainFrameFile 128 ?st ''/f'') [0..<300]))
         \<lparr> files = [(''/f'', Directory)], draws_main = 0 \<rparr>)) = mainFrameFile 128 ?st ''/f'' 299"
    by (simp add: files_withFiles up)
  ultimately show ?thesis
    by (simp add: mainFrameFile_def fps_def)
qed

text \<open>
  Claim C6. Two runs of \<open>generateVisuals\<close> that agree on tempo, duration and genre, and
  may differ in everything else (the random numbers, the clock, the file system, the output
  directory), write the same images in the same order: the image of frame \<open>k\<close> is a
  function of \<open>k\<close>, the frame rate, the tempo and the style alone, and neither run draws a
  random number.
\<close>

theorem main_frames_deterministic:
  assumes "env_fault e = None" and "env_fault e' = None"
    and "md_tempo md' = md_tempo md" and "md_duration md' = md_duration md"
    and "md_genre md' = md_genre md"
    and "getVisualStyle (md_genre md) = Own st"
    and "generateVisuals e md dir w = (r, w1)" and "generateVisuals e' md' dir' w' = (r', w1')"
  shows "map snd (take (nat (md_duration md * 30)) (files w1))
           = map snd (take (nat (md_duration md * 30)) (files w1')) \<and>
         map snd (take (nat (md_duration md * 30)) (files w1))
           = rev (map (\<lambda>k. Image (frameCanvas (real k / 30 * (md_tempo md / 60)) (real k / 30) st))
                   [0..<nat (md_duration md * 30)]) \<and>
         draws_main w1 = draws_main w \<and> draws_main w1' = draws_main w'"
proof -
  let ?n = "nat (md_duration md * 30)"
  let ?img = "\<lambda>k. Image (frameCanvas (real k / 30 * (md_tempo md / 60)) (real k / 30) st)"
  have img: "snd \<circ> mainFrameFile (md_tempo md) st d = ?img" for d
    by (intro ext) (simp add: mainFrameFile_def fps_def)
  have st': "getVisualStyle (md_genre md') = Own st" using assms(5,6) by simp
  have w1: "w1 = withFiles (rev (map (mainFrameFile (md_tempo md) st dir) [0..<?n])) (ensureDir dir w)"
    using generateVisuals_run [OF assms(1,6), of dir w] assms(7) by simp
  have w1': "w1' = withFiles (rev (map (mainFrameFile (md_tempo md) st dir') [0..<?n])) (ensureDir dir' w')"
    using generateVisuals_run [OF assms(2) st', of dir' w'] assms(3,4,8) by simp
  have a: "map snd (take ?n (files w1)) = rev (map ?img [0..<?n])"
    unfolding w1 files_withFiles by (simp add: rev_map [symmetric] img)
  have b: "map snd (take ?n (files w1')) = rev (map ?img [0..<?n])"
    unfolding w1' files_withFiles by (simp add: rev_map [symmetric] img)
  have c: "draws_main w1 = draws_main w" "draws_main w1' = draws_main w'"
    unfolding w1 w1' by (simp_all add: draws_main_withFiles draws_main_ensureDir)
  from a b c show ?thesis by simp
qed

text \<open>
  Claim C6, witness: two runs for 10 seconds of electronic at 128 BPM, in different
  directories and worlds and with different random numbers.
\<close>

theorem main_frames_deterministic_witness:
  "\<exists>r w1 r' w1'.
     generateVisuals
       \<lparr> env_dirname = ''/app'', env_now = 0, env_random = (\<lambda>n. 0), env_script_random = (\<lambda>n. 0),
         env_fault = None, env_partial = False \<rparr>
       \<lparr> md_tempo = 128, md_duration = 10, md_genre = ''electronic'', md_path = ''/a.wav'' \<rparr>
       ''/f'' \<lparr> files = [], draws_main = 0 \<rparr> = (r, w1) \<and>
     generateVisuals
       \<lparr> env_dirname = ''/srv'', env_now = 99, env_random = (\<lambda>n. 1 / 2),
         env_script_random = (\<lambda>n. 1 / 3), env_fault = None, env_partial = True \<rparr>
       \<lparr> md_tempo = 128, md_duration = 10, md_genre = ''electronic'', md_path = ''/b.wav'' \<rparr>
       ''/g'' \<lparr> files = [(''/g'', Directory)], draws_main = 7 \<rparr> = (r', w1') \<and>
     map snd (take 300 (files w1)) = map snd (take 300 (files w1')) \<and>
     draws_main w1 = 0 \<and> draws_main w1' = 7"
proof -
  let ?e = "\<lparr> env_dirname = ''/app'', env_now = 0, env_random = (\<lambda>n. 0 :: real),
         env_script_random = (\<lambda>n. 0 :: real), env_fault = None, env_partial = False \<rparr>"
  let ?e' = "\<lparr> env_dirname = ''/srv'', env_now = 99, env_random = (\<lambda>n. 1 / 2 :: real),
         env_script_random = (\<lambda>n. 1 / 3 :: real), env_fault = None, env_partial = True \<rparr>"
  let ?md = "\<lparr> md_tempo = 128, md_duration = 10, md_genre = ''electronic'', md_path = ''/a.wav'' \<rparr>"
  let ?md' = "\<lparr> md_tempo = 128, md_duration = 10, md_genre = ''electronic'', md_path = ''/b.wav'' \<rparr>"
  let ?st = "\<lparr> colors = [''#00ffff'', ''#ff00ff'', ''#ffff00'', ''#00ff00''],
                         backgroundColor = ''#000000'', shapeType = ''geometric'',
                         particleCount = 50, waveAmplitude = 100 \<rparr>"
  have s: "getVisualStyle (md_genre ?md) = Own ?st"
    by (simp add: getVisualStyle_def getProperty_def orElse_def styles_def)
  obtain r w1 where run: "generateVisuals ?e ?md ''/f'' \<lparr> files = [], draws_main = 0 \<rparr> = (r, w1)"
    by (cases "generateVisuals ?e ?md ''/f'' \<lparr> files = [], draws_main = 0 \<rparr>") blast
  obtain r' w1' where run': "generateVisuals ?e' ?md' ''/g'' \<lparr> files = [(''/g'', Directory)], draws_main = 7 \<rparr> = (r', w1')"
    by (cases "generateVisuals ?e' ?md' ''/g'' \<lparr> files = [(''/g'', Directory)], draws_main = 7 \<rparr>") blast
  have "map snd (take 300 (files w1)) = map snd (take 300 (files w1')) \<and>
     draws_main w1 = 0 \<and> draws_main w1' = 7"
    using main_frames_deterministic [OF _ _ _ _ _ s run run'] by simp
  with run run' show ?thesis by blast
qed

section \<open>Paths and cleanup\<close>

lemma segments_nonempty: "segments p \<noteq> []"
  by (induction p) (auto split: list.splits)

lemma segments_plain: "slash \<notin> set b \<Longrightarrow> segments b = [b]"
  by (induction b) auto

lemma segments_slash_free: "s \<in> set (segments p) \<Longrightarrow> slash \<notin> set s"
  by (induction p arbitrary: s) (auto split: list.splits if_splits)

lemma segments_append: "slash \<notin> set b \<Longrightarrow> segments (a @ CHR ''/'' # b) = segments a @ [b]"
proof (induction a)
  case Nil
  then show ?case by (simp add: segments_plain slash_def)
next
  case (Cons c a)
  then show ?case
    using segments_nonempty [of a]
    by (cases "segments a") (auto simp: slash_def)
qed

lemma segments_cons: "slash \<notin> set a \<Longrightarrow> segments (a @ CHR ''/'' # r) = a # segments r"
  by (induction a) (auto simp: slash_def)

lemma segments_joinWith:
  "segs \<noteq> [] \<Longrightarrow> \<forall>s \<in> set segs. slash \<notin> set s \<Longrightarrow> segments (joinWith ''/'' segs) = segs"
proof (induction segs)
  case Nil
  then show ?case by simp
next
  case (Cons x xs)
  show ?case
  proof (cases xs)
    case Nil
    with Cons.prems show ?thesis by (simp add: segments_plain)
  next
    case (Cons y ys)
    with Cons.IH Cons.prems show ?thesis by (simp add: segments_cons)
  qed
qed

lemma joinWith_snoc: "segs \<noteq> [] \<Longrightarrow> joinWith sep (segs @ [x]) = joinWith sep segs @ sep @ x"
  by (induction sep segs rule: joinWith.induct) auto

lemma normalizeString_append:
  "normalizeString ab res (xs @ ys) = normalizeString ab (normalizeString ab res xs) ys"
  by (induction xs arbitrary: res) auto

lemma normalizeString_plain:
  "\<forall>s \<in> set segs. plainSegment s \<Longrightarrow> normalizeString ab res segs = res @ segs"
  by (induction segs arbitrary: res) (auto simp: plainSegment_def)

lemma normalizeString_result_plain:
  "\<forall>s \<in> set res. plainSegment s \<Longrightarrow> \<forall>s \<in> set segs. slash \<notin> set s \<Longrightarrow>
   \<forall>s \<in> set (normalizeString False res segs). plainSegment s"
proof (induction segs arbitrary: res)
  case Nil
  then show ?case by simp
next
  case (Cons seg segs)
  have bl: "\<forall>s \<in> set (butlast res). plainSegment s"
    using Cons.prems(1) by (auto dest: in_set_butlastD)
  have ap: "\<forall>s \<in> set (res @ [seg]). plainSegment s" if "seg \<noteq> []" "seg \<noteq> ''.''" "seg \<noteq> ''..''"
    using that Cons.prems by (auto simp: plainSegment_def)
  show ?case
    using Cons.IH [OF bl] Cons.IH [OF Cons.prems(1)] Cons.IH [OF ap] Cons.prems(2)
    by auto
qed

text \<open>An absolute path that \<open>path.join\<close> returned, taken apart.\<close>

lemma join_absolute:
  assumes "d \<noteq> []" and "hd d = slash" and "plainSegment x"
  shows "\<exists>segs. segs \<noteq> [] \<and> (\<forall>s \<in> set segs. plainSegment s) \<and>
           join [d, x] = ''/'' @ joinWith ''/'' segs \<and>
           normalizeString False [] (segments d) @ [x] = segs"
proof -
  let ?segs = "normalizeString False [] (segments d) @ [x]"
  have x: "x \<noteq> []" "slash \<notin> set x" using assms(3) by (auto simp: plainSegment_def)
  have plain: "\<forall>s \<in> set ?segs. plainSegment s"
    using normalizeString_result_plain [of "[]" "segments d"] assms(3)
    by (auto dest: segments_slash_free)
  have ns: "normalizeString False [] (segments (d @ CHR ''/'' # x)) = ?segs"
    using normalizeString_plain [of "[x]" False] assms(3)
    by (simp add: segments_append [OF x(2)] normalizeString_append)
  have ne: "joinWith ''/'' ?segs \<noteq> []"
  proof
    assume "joinWith ''/'' ?segs = []"
    then have "segments (joinWith ''/'' ?segs) = [[]]" by simp
    moreover have "segments (joinWith ''/'' ?segs) = ?segs"
      using plain by (intro segments_joinWith) (auto simp: plainSegment_def)
    ultimately show False using x(1) by simp
  qed
  have "last x \<in> set x" using x(1) by (rule last_in_set)
  with x(2) have "last x \<noteq> slash" by metis
  then have last: "last (d @ ''/'' @ x) \<noteq> slash"
    using x(1) by simp
  have hd: "hd (d @ ''/'' @ x) = slash"
    using assms(1,2) by simp
  have "join [d, x] = ''/'' @ joinWith ''/'' ?segs"
    using assms(1) x(1) ne last hd
    by (simp add: join_def normalize_def Let_def ns)
  with plain show ?thesis by blast
qed

lemma join_below:
  assumes "segs \<noteq> []" and "\<forall>s \<in> set segs. plainSegment s" and "plainSegment x"
  shows "join [''/'' @ joinWith ''/'' segs, x] = ''/'' @ joinWith ''/'' segs @ ''/'' @ x"
proof -
  let ?od = "''/'' @ joinWith ''/'' segs"
  have sf: "\<forall>s \<in> set segs. slash \<notin> set s" using assms(2) by (auto simp: plainSegment_def)
  have "segments ?od = [] # segs"
    using segments_cons [of "[]" "joinWith ''/'' segs"] segments_joinWith [OF assms(1) sf]
    by simp
  then have "normalizeString False [] (segments ?od) = segs"
    using normalizeString_plain [OF assms(2), of False "[]"] by simp
  moreover have "?od \<noteq> []" "hd ?od = slash" by (simp_all add: slash_def)
  ultimately show ?thesis
    using join_absolute [OF \<open>?od \<noteq> []\<close> \<open>hd ?od = slash\<close> assms(3)] assms(1)
    by (auto simp: joinWith_snoc)
qed

lemma plainSegment_mp4: "slash \<notin> set n \<Longrightarrow> plainSegment (n @ ''.mp4'')"
  by (cases n; cases "tl n") (auto simp: plainSegment_def slash_def)

lemma basename_no_separator: "slash \<notin> set (basename p)"
  unfolding basename_def set_rev by (auto dest: set_takeWhileD)

text \<open>
  What the sanitization does achieve: for a program in an absolute directory and a
  non-empty output name whose last component is none of the empty name, \<open>.\<close> and \<open>..\<close>, the
  working directory and the final file lie directly inside the output directory.
\<close>

lemma sanitized_name_stays_inside:
  assumes "env_dirname e \<noteq> []" and "hd (env_dirname e) = slash"
    and "n \<noteq> []" and "basename n \<notin> {[], ''.'', ''..''}"
  shows "projectDir (paths e genre (Some n)) = outputDir e @ ''/'' @ basename n \<and>
         videoPath (paths e genre (Some n)) = outputDir e @ ''/'' @ basename n @ ''.mp4''"
proof -
  have po: "plainSegment ''output''" by (simp add: plainSegment_def slash_def)
  from join_absolute [OF assms(1,2) po] obtain segs where
    segs: "segs \<noteq> []" "\<forall>s \<in> set segs. plainSegment s" "outputDir e = ''/'' @ joinWith ''/'' segs"
    unfolding outputDir_def by blast
  have pb: "plainSegment (basename n)"
    using assms(4) basename_no_separator [of n] by (simp add: plainSegment_def)
  have pm: "plainSegment (basename n @ ''.mp4'')"
    using basename_no_separator [of n] by (rule plainSegment_mp4)
  show ?thesis
    using join_below [OF segs(1,2) pb] join_below [OF segs(1,2) pm] assms(3)
    by (simp add: paths_def sanitizedName_def Let_def segs(3))
qed

text \<open>
  Claim C10 says that the sanitized name keeps the working directory and the final file
  inside the output directory for every \<open>outputName\<close>. \<open>path.basename\<close> removes the
  separators but returns \<open>..\<close> unchanged, and \<open>path.join\<close> resolves it: for the output name
  \<open>..\<close> and a program in \<open>/app\<close> the output directory is \<open>/app/output\<close> while the working
  directory is \<open>/app\<close>, with the frames, the intro, the outro and the audio directly in it.
\<close>

theorem parent_name_escapes_output_directory:
  "outputDir \<lparr> env_dirname = ''/app'', env_now = 0, env_random = (\<lambda>n. 0),
        env_script_random = (\<lambda>n. 0), env_fault = None, env_partial = False \<rparr> = ''/app/output'' \<and>
   paths \<lparr> env_dirname = ''/app'', env_now = 0, env_random = (\<lambda>n. 0),
        env_script_random = (\<lambda>n. 0), env_fault = None, env_partial = False \<rparr>
        ''electronic'' (Some ''..'')
   = \<lparr> projectDir = ''/app'', framesDir = ''/app/frames'', introDir = ''/app/intro'',
       outroDir = ''/app/outro'', audioPath = ''/app/audio.wav'',
       videoPath = ''/app/output/...mp4'' \<rparr>"
  by (simp add: paths_def sanitizedName_def outputDir_def basename_def join_def normalize_def
      slash_def Let_def)

lemma paths_test:
  "paths \<lparr> env_dirname = ''/app'', env_now = 0, env_random = (\<lambda>n. 1 / 2),
        env_script_random = (\<lambda>n. 0), env_fault = Some MusicSynthesis, env_partial = False \<rparr>
        ''electronic'' (Some ''test_video'')
   = \<lparr> projectDir = ''/app/output/test_video'', framesDir = ''/app/output/test_video/frames'',
       introDir = ''/app/output/test_video/intro'', outroDir = ''/app/output/test_video/outro'',
       audioPath = ''/app/output/test_video/audio.wav'',
       videoPath = ''/app/output/test_video.mp4'' \<rparr>"
  by (simp add: paths_def sanitizedName_def outputDir_def basename_def join_def normalize_def
      slash_def Let_def)

lemma dirs_test:
  "ensureDir ''/app/output/test_video/outro''
     (ensureDir ''/app/output/test_video/intro''
       (ensureDir ''/app/output/test_video/frames''
         (ensureDir ''/app/output/test_video'' \<lparr> files = [], draws_main = 0 \<rparr>)))
   = \<lparr> files = [(''/app/output/test_video/outro'', Directory),
                (''/app/output/test_video/intro'', Directory),
                (''/app/output/test_video/frames'', Directory),
                (''/app/output/test_video'', Directory),
                (''/app/output'', Directory),
                (''/app'', Directory)], draws_main = 0 \<rparr>"
  by (simp add: ensureDir_def existsSync_def mkdirSync_def ancestors_def writeFileSync_def
      slash_def upt_rec)

lemma music_test:
  "generateMusic \<lparr> env_dirname = ''/app'', env_now = 0, env_random = (\<lambda>n. 1 / 2),
        env_script_random = (\<lambda>n. 0), env_fault = Some MusicSynthesis, env_partial = False \<rparr>
      ''electronic'' ''/app/output/test_video/audio.wav''
      \<lparr> files = (''/app/output/test_video/outro'', Directory) #
                (''/app/output/test_video/intro'', Directory) #
                (''/app/output/test_video/frames'', Directory) #
                (''/app/output/test_video'', Directory) # fs, draws_main = 0 \<rparr>
   = (Inl (Failed MusicSynthesis),
      \<lparr> files = (''/app/output/test_video/outro'', Directory) #
                (''/app/output/test_video/intro'', Directory) #
                (''/app/output/test_video/frames'', Directory) #
                (''/app/output/test_video'', Directory) #
                filter (\<lambda>(q, c). q \<noteq> ''/app/output/test_video/temp_music_script.js'') fs,
        draws_main = 1 \<rparr>)"
proof -
  have tf: "templateFor ''electronic'' = Own electronic"
    by (simp add: templateFor_def getProperty_def orElse_def genreTemplates_def)
  have sp: "join [dirname ''/app/output/test_video/audio.wav'', ''temp_music_script.js'']
      = ''/app/output/test_video/temp_music_script.js''"
    and sd: "dirname ''/app/output/test_video/temp_music_script.js'' = ''/app/output/test_video''"
    by (simp_all add: join_def dirname_def normalize_def slash_def Let_def)
  show ?thesis
    by (simp add: generateMusic_def tf sp sd Let_def directoryExists_def existsSync_def
        writeFileSync_def unlinkSync_def)
qed

text \<open>
  Claim C2 says that a failure of any stage removes the working directory before the error
  reaches the caller. The \<open>catch\<close> block of \<open>generate\<close> only logs and throws again, and
  \<open>_cleanupTempFiles\<close> is called on the successful path alone: when the music synthesis
  fails, the error is returned and the working directory with its frames, intro and outro
  directories is still there.
\<close>

theorem failed_generation_keeps_working_directory:
  "generate \<lparr> env_dirname = ''/app'', env_now = 0, env_random = (\<lambda>n. 1 / 2),
        env_script_random = (\<lambda>n. 0), env_fault = Some MusicSynthesis, env_partial = False \<rparr>
      ''electronic'' (Some ''test_video'') \<lparr> files = [], draws_main = 0 \<rparr>
   = (Inl (Failed MusicSynthesis),
      \<lparr> files = [(''/app/output/test_video/outro'', Directory),
                (''/app/output/test_video/intro'', Directory),
                (''/app/output/test_video/frames'', Directory),
                (''/app/output/test_video'', Directory),
                (''/app/output'', Directory),
                (''/app'', Directory)], draws_main = 1 \<rparr>)"
  by (simp add: generate_def paths_test dirs_test Let_def andThen_def music_test)

text \<open>
  The same holds for the final file: when the concatenation fails and ffmpeg leaves its
  unfinished output behind, \<open>renderComplete\<close> removes its segments and rethrows, and the
  unfinished file stays at the final location.
\<close>

lemma failed_concatenation_leaves_partial_output:
  "renderComplete \<lparr> env_dirname = ''/app'', env_now = 0, env_random = (\<lambda>n. 0),
        env_script_random = (\<lambda>n. 0), env_fault = Some Concatenation, env_partial = True \<rparr>
      im vm om ''/app/output/v/audio.wav'' ''/app/output/v.mp4''
      \<lparr> files = [(''/app/output'', Directory), (''/app'', Directory)], draws_main = 0 \<rparr>
   = (Inl (Failed Concatenation),
      \<lparr> files = [(''/app/output/v.mp4'', Partial), (''/app/output'', Directory), (''/app'', Directory)],
        draws_main = 0 \<rparr>)"
proof -
  have tmp: "join [dirname ''/app/output/v.mp4'', ''temp_segments''] = ''/app/output/temp_segments''"
    and lst: "join [dirname ''/app/output/v.mp4'', ''concat_list.txt''] = ''/app/output/concat_list.txt''"
    and seg: "join [''/app/output/temp_segments'', ''intro.mp4''] = ''/app/output/temp_segments/intro.mp4''"
      "join [''/app/output/temp_segments'', ''main.mp4''] = ''/app/output/temp_segments/main.mp4''"
      "join [''/app/output/temp_segments'', ''outro.mp4''] = ''/app/output/temp_segments/outro.mp4''"
    by (simp_all add: join_def dirname_def normalize_def slash_def Let_def)
  have anc: "ancestors ''/app/output/temp_segments'' = [''/app'', ''/app/output'']"
    by (simp add: ancestors_def slash_def upt_rec)
  show ?thesis
    by (simp add: renderComplete_def Let_def tmp lst seg anc andThen_def renderIntro_def
        renderMain_def renderOutro_def concatenateVideos_def ffmpeg_def ensureDir_def
        mkdirSync_def existsSync_def writeFileSync_def removeSegments_def removeIfExists_def
        unlinkSync_def rmSync_def below_def)
qed

text \<open>What the renderer's own cleanup achieves.\<close>

lemma not_exists_unlinkSync: "\<not> existsSync (unlinkSync p w) p"
  by (auto simp: existsSync_def unlinkSync_def)

lemma exists_unlinkSync: "existsSync (unlinkSync p w) q \<Longrightarrow> existsSync w q"
  by (auto simp: existsSync_def unlinkSync_def)

lemma not_exists_removeIfExists: "\<not> existsSync (removeIfExists p w) p"
  by (simp add: removeIfExists_def not_exists_unlinkSync)

lemma exists_removeIfExists: "existsSync (removeIfExists p w) q \<Longrightarrow> existsSync w q"
  by (auto simp: removeIfExists_def dest: exists_unlinkSync split: if_splits)

lemma exists_rmSync: "existsSync (rmSync dir w) q \<Longrightarrow> existsSync w q \<and> \<not> below dir q"
  by (auto simp: existsSync_def rmSync_def)

lemma removeSegments_removes:
  "\<not> existsSync (removeSegments i m o' t w) i \<and> \<not> existsSync (removeSegments i m o' t w) m \<and>
   \<not> existsSync (removeSegments i m o' t w) o' \<and> \<not> existsSync (removeSegments i m o' t w) t"
proof -
  let ?w3 = "removeIfExists o' (removeIfExists m (removeIfExists i w))"
  have i: "\<not> existsSync ?w3 i"
    using not_exists_removeIfExists [of i w] by (blast dest: exists_removeIfExists)
  have m: "\<not> existsSync ?w3 m"
    using not_exists_removeIfExists [of m] by (blast dest: exists_removeIfExists)
  have o: "\<not> existsSync ?w3 o'"
    by (rule not_exists_removeIfExists)
  have t: "\<not> existsSync (rmSync t ?w3) t"
    using exists_rmSync [of t ?w3 t] by (auto simp: below_def)
  show ?thesis
    unfolding removeSegments_def Let_def
    using i m o t by (auto dest: exists_rmSync)
qed

lemma renderComplete_failure_removes_segments:
  assumes "renderComplete e im vm om audio out w = (Inl err, w')"
  shows "\<not> existsSync w' (join [join [dirname out, ''temp_segments''], ''intro.mp4'']) \<and>
         \<not> existsSync w' (join [join [dirname out, ''temp_segments''], ''main.mp4'']) \<and>
         \<not> existsSync w' (join [join [dirname out, ''temp_segments''], ''outro.mp4'']) \<and>
         \<not> existsSync w' (join [dirname out, ''temp_segments''])"
  using assms removeSegments_removes
  unfolding renderComplete_def Let_def
  by (auto split: prod.splits sum.splits)

end
